theory Spec2Isabelle
  imports Complex_Main
begin

section \<open>The pretraining driver \<^verbatim>\<open>train_pretrain.py\<close>\<close>

text \<open>
  The script is an orchestration loop around a deep-learning framework. The embedding
  keeps the control flow of the script as it is written and makes the effects of the
  framework calls explicit: every call is an event appended to a trace, and the few
  pieces of framework state the script's contract is about (the learning rate of the
  optimizer's parameter groups, the accumulated gradients, the optimizer updates, the
  mode of the model, the files written) are fields of a state record.

  Python floats are modelled by the reals (no rounding); a tensor scalar that is
  \<^verbatim>\<open>nan\<close> or infinite after a division by zero is \<open>None\<close>. Python integers
  are \<open>int\<close>; Python's \<^verbatim>\<open>%\<close> on integers is \<open>mod\<close> on \<open>int\<close> (both take
  the sign of the divisor), and it raises on a zero divisor where HOL returns the
  dividend.
\<close>

subsection \<open>Exceptions and integer printing\<close>

datatype py_error = ZeroDivisionError | IndexError | KeyError | AttributeError | RuntimeError

definition then_do :: "'e + 'a \<Rightarrow> ('a \<Rightarrow> 'e + 'b) \<Rightarrow> 'e + 'b" where
  "then_do r f = (case r of Inl e \<Rightarrow> Inl e | Inr x \<Rightarrow> f x)"

text \<open>\<^verbatim>\<open>str(n)\<close> of a Python integer, as the f-strings of the script print it.\<close>

fun str_nat :: "nat \<Rightarrow> string" where
  "str_nat n = (if n < 10 then [''0123456789'' ! n]
                else str_nat (n div 10) @ [''0123456789'' ! (n mod 10)])"

declare str_nat.simps [simp del]

definition str_int :: "int \<Rightarrow> string" where
  "str_int i = (if i < 0 then CHR ''-'' # str_nat (nat (- i)) else str_nat (nat i))"

subsection \<open>The configuration\<close>

text \<open>
  The namespace returned by \<^verbatim>\<open>parser.parse_args()\<close>. The attributes
  \<^verbatim>\<open>save_dir\<close> and \<^verbatim>\<open>wandb_run_name\<close> do not exist after parsing; the script
  adds them during start-up, so they are optional here and reading a missing one
  raises \<^verbatim>\<open>AttributeError\<close>.
\<close>

record namespace =
  out_dir :: string
  epochs :: int
  batch_size :: int
  learning_rate :: real
  device :: string
  dtype :: string
  use_wandb :: bool
  wandb_project :: string
  num_workers :: int
  ddp_flag :: bool
  accumulation_steps :: int
  grad_clip :: real
  warmup_iters :: int
  log_interval :: int
  save_interval :: int
  local_rank :: int
  dim :: int
  n_layers :: int
  max_seq_len :: int
  use_moe :: bool
  data_path :: string
  save_dir :: "string option"
  wandb_run_name :: "string option"

text \<open>
  \<^verbatim>\<open>LMConfig\<close> is imported from the model package; the script builds it from four
  arguments and reads \<^verbatim>\<open>dim\<close>, \<^verbatim>\<open>use_moe\<close> and \<^verbatim>\<open>max_seq_len\<close> back.
\<close>

record lm_config =
  cfg_dim :: int
  cfg_n_layers :: int
  cfg_max_seq_len :: int
  cfg_use_moe :: bool

definition LMConfig :: "int \<Rightarrow> int \<Rightarrow> int \<Rightarrow> bool \<Rightarrow> lm_config" where
  "LMConfig d n m e = \<lparr>cfg_dim = d, cfg_n_layers = n, cfg_max_seq_len = m, cfg_use_moe = e\<rparr>"

subsection \<open>The learning-rate schedule\<close>

text \<open>
  \<^verbatim>\<open>get_lr(current_step, total_steps, lr)\<close>. The quotient
  \<^verbatim>\<open>math.pi * current_step / total_steps\<close> is a float divided by an integer and
  raises \<^verbatim>\<open>ZeroDivisionError\<close> when \<^verbatim>\<open>total_steps\<close> is zero.
\<close>

definition get_lr :: "int \<Rightarrow> int \<Rightarrow> real \<Rightarrow> py_error + real" where
  "get_lr current_step total_steps lr =
     (if total_steps = 0 then Inl ZeroDivisionError
      else Inr (lr / 10 + 0.5 * lr * (1 + cos (pi * of_int current_step / of_int total_steps))))"

subsection \<open>The framework, seen from the script\<close>

text \<open>
  A batch of the data loader is the triple \<^verbatim>\<open>(X, Y, loss_mask)\<close> of tensors of one
  shape, flattened to lists: input token ids, target token ids and the validity mask.
\<close>

type_synonym batch = "int list \<times> int list \<times> real list"

text \<open>
  A micro-batch is named by its epoch and its step index. The parameters of the model
  are determined by the optimizer updates performed so far, each of them recorded as
  the list of micro-batches whose gradients it applied.
\<close>

type_synonym micro_batch = "nat \<times> nat"

type_synonym snapshot = "micro_batch list list"

text \<open>
  The collaborators the script treats as black boxes are parameters: the forward pass
  of the model (logits for every position and the auxiliary loss, from the current
  parameters and the whole input \<^verbatim>\<open>X\<close>), the cross entropy of one position
  (\<^verbatim>\<open>nn.CrossEntropyLoss(reduction='none')\<close>), the number of trainable parameters in
  millions, the readings of \<^verbatim>\<open>time.time()\<close> at the start of an epoch and at a log
  line, and the text Python prints for a float.
\<close>

record framework =
  model_fwd :: "snapshot \<Rightarrow> int list \<Rightarrow> real list list \<times> real"
  loss_fct :: "real list \<Rightarrow> int \<Rightarrow> real"
  n_params :: real
  epoch_start_time :: "nat \<Rightarrow> real"
  log_time :: "nat \<Rightarrow> nat \<Rightarrow> real"
  fmt_float :: "real \<Rightarrow> string"

text \<open>
  The module-level names that are bound once and only read by the loop. The argument
  \<^verbatim>\<open>args.ddp\<close> is the field \<open>ddp_flag\<close> of the namespace; the global \<^verbatim>\<open>ddp\<close> is
  computed from the environment. \<open>rank\<close> is what \<^verbatim>\<open>dist.get_rank()\<close> returns in this
  process; \<open>wandb\<close> says that the global \<^verbatim>\<open>wandb\<close> is not \<^verbatim>\<open>None\<close>.
\<close>

record globals =
  lm_config :: lm_config
  ddp :: bool
  rank :: int
  ddp_local_rank :: int
  DEVICE :: string
  wandb :: bool
  train_loader :: "batch list"
  fw :: framework

definition iter_per_epoch :: "globals \<Rightarrow> nat" where
  "iter_per_epoch g = length (train_loader g)"

datatype log_content =
    ParamCount real
  | TrainLog nat int nat nat "real option" real real

datatype event =
    SetLR real
  | Forward "int list"
  | Backward "real option"
  | Unscale
  | ClipGradNorm real
  | OptimizerStep
  | ScalerUpdate
  | ZeroGrad
  | Print log_content
  | WandbLog "real option" real real
  | ModelEval
  | TorchSave string snapshot
  | ModelTrain

text \<open>
  The mutable state: the namespace \<^verbatim>\<open>args\<close>, the learning rates of
  \<^verbatim>\<open>optimizer.param_groups\<close>, the micro-batches whose gradients are summed in the
  \<^verbatim>\<open>.grad\<close> buffers (\<open>pending\<close>), the optimizer updates performed (\<open>applied\<close>),
  the mode flag of the model, the files on disk and the trace of framework calls.
\<close>

record world =
  args :: namespace
  lrs :: "real list"
  pending :: "micro_batch list"
  applied :: snapshot
  training :: bool
  files :: "string \<rightharpoonup> snapshot"
  trace :: "event list"

type_synonym outcome = "(py_error \<times> world) + world"

definition final :: "outcome \<Rightarrow> world" where
  "final r = (case r of Inl (e, s) \<Rightarrow> s | Inr s \<Rightarrow> s)"

definition emit :: "event \<Rightarrow> world \<Rightarrow> world" where
  "emit e s = s\<lparr>trace := trace s @ [e]\<rparr>"

text \<open>\<^verbatim>\<open>for param_group in optimizer.param_groups: param_group['lr'] = lr\<close>\<close>

definition set_lr :: "real \<Rightarrow> world \<Rightarrow> world" where
  "set_lr lr s = emit (SetLR lr) (s\<lparr>lrs := map (\<lambda>_. lr) (lrs s)\<rparr>)"

text \<open>\<^verbatim>\<open>scaler.scale(loss).backward()\<close> adds the gradient of the micro-batch to the buffers.\<close>

definition backward :: "micro_batch \<Rightarrow> real option \<Rightarrow> world \<Rightarrow> world" where
  "backward b loss s = emit (Backward loss) (s\<lparr>pending := pending s @ [b]\<rparr>)"

definition unscale :: "world \<Rightarrow> world" where
  "unscale s = emit Unscale s"

definition clip_grad_norm :: "real \<Rightarrow> world \<Rightarrow> world" where
  "clip_grad_norm c s = emit (ClipGradNorm c) s"

text \<open>\<^verbatim>\<open>scaler.step(optimizer)\<close> applies what the gradient buffers hold.\<close>

definition scaler_step :: "world \<Rightarrow> world" where
  "scaler_step s = emit OptimizerStep (s\<lparr>applied := applied s @ [pending s]\<rparr>)"

definition scaler_update :: "world \<Rightarrow> world" where
  "scaler_update s = emit ScalerUpdate s"

definition zero_grad :: "world \<Rightarrow> world" where
  "zero_grad s = emit ZeroGrad (s\<lparr>pending := []\<rparr>)"

definition model_eval :: "world \<Rightarrow> world" where
  "model_eval s = emit ModelEval (s\<lparr>training := False\<rparr>)"

definition model_train :: "world \<Rightarrow> world" where
  "model_train s = emit ModelTrain (s\<lparr>training := True\<rparr>)"

text \<open>
  \<^verbatim>\<open>torch.save(state_dict, ckp)\<close>: the file at \<open>ckp\<close> is replaced by the current
  parameters. The \<^verbatim>\<open>state_dict\<close> of a wrapped model is that of its module, so both
  branches of the \<^verbatim>\<open>isinstance\<close> test give the same snapshot.
\<close>

definition torch_save :: "string \<Rightarrow> world \<Rightarrow> world" where
  "torch_save ckp s = emit (TorchSave ckp (applied s)) (s\<lparr>files := (files s)(ckp \<mapsto> applied s)\<rparr>)"

definition designated :: "globals \<Rightarrow> bool" where
  "designated g = (\<not> ddp g \<or> rank g = 0)"

definition Logger :: "globals \<Rightarrow> log_content \<Rightarrow> world \<Rightarrow> world" where
  "Logger g content s = (if \<not> ddp g \<or> rank g = 0 then emit (Print content) s else s)"

subsection \<open>The body of the training loop\<close>

text \<open>
  Line 72: \<^verbatim>\<open>(loss * loss_mask).sum() / loss_mask.sum()\<close>. A tensor division by zero
  does not raise; it gives \<^verbatim>\<open>nan\<close> or an infinity, here \<open>None\<close>.
\<close>

definition masked_mean :: "real list \<Rightarrow> real list \<Rightarrow> real option" where
  "masked_mean loss loss_mask =
     (if sum_list loss_mask = 0 then None
      else Some (sum_list (map2 (*) loss loss_mask) / sum_list loss_mask))"

text \<open>
  Lines 67 to 74: the forward pass on the whole of \<^verbatim>\<open>X\<close>, the cross entropy of
  every position, the masked mean, the auxiliary loss added unmasked, and the division
  by \<^verbatim>\<open>accumulation_steps\<close>. Tensors whose shapes do not agree make the framework
  raise.
\<close>

definition micro_loss :: "framework \<Rightarrow> snapshot \<Rightarrow> int \<Rightarrow> batch \<Rightarrow> py_error + real option" where
  "micro_loss f params acc b =
     (case b of (X, Y, loss_mask) \<Rightarrow>
        (case model_fwd f params X of (logits, aux_loss) \<Rightarrow>
           if length logits \<noteq> length Y \<or> length loss_mask \<noteq> length Y then Inl RuntimeError
           else
             let loss = map2 (loss_fct f) logits Y;
                 loss = masked_mean loss loss_mask;
                 loss = map_option (\<lambda>l. l + aux_loss) loss
             in Inr (if acc = 0 then None else map_option (\<lambda>l. l / of_int acc) loss)))"

text \<open>Lines 60 to 83: the learning rate, the forward pass, the loss, the backward pass.\<close>

definition forward_backward ::
  "globals \<Rightarrow> nat \<Rightarrow> nat \<Rightarrow> batch \<Rightarrow> world \<Rightarrow> (py_error \<times> world) + (real option \<times> world)" where
  "forward_backward g epoch step b s =
     (case get_lr (int epoch * int (iter_per_epoch g) + int step)
                  (epochs (args s) * int (iter_per_epoch g))
                  (learning_rate (args s)) of
        Inl e \<Rightarrow> Inl (e, s)
      | Inr lr \<Rightarrow>
          let s = set_lr lr s;
              s = emit (Forward (fst b)) s
          in (case micro_loss (fw g) (applied s) (accumulation_steps (args s)) b of
                Inl e \<Rightarrow> Inl (e, s)
              | Inr loss \<Rightarrow> Inr (loss, backward (epoch, step) loss s)))"

text \<open>Lines 93 to 100.\<close>

definition accumulation_boundary :: "nat \<Rightarrow> world \<Rightarrow> outcome" where
  "accumulation_boundary step s =
     (if accumulation_steps (args s) = 0 then Inl (ZeroDivisionError, s)
      else if (int step + 1) mod accumulation_steps (args s) = 0 then
        Inr (zero_grad (scaler_update (scaler_step
              (clip_grad_norm (grad_clip (args s)) (unscale s)))))
      else Inr s)"

text \<open>
  Lines 102 to 117. \<^verbatim>\<open>a // 60\<close> on floats is the floor of the quotient;
  \<^verbatim>\<open>optimizer.param_groups[-1]\<close> raises on an empty list.
\<close>

definition epoch_time :: "real \<Rightarrow> nat \<Rightarrow> nat \<Rightarrow> real" where
  "epoch_time spend_time step n =
     of_int \<lfloor>spend_time / of_nat (step + 1) * of_nat n / 60\<rfloor> - of_int \<lfloor>spend_time / 60\<rfloor>"

definition log_step :: "globals \<Rightarrow> nat \<Rightarrow> nat \<Rightarrow> real option \<Rightarrow> world \<Rightarrow> outcome" where
  "log_step g epoch step loss s =
     (if log_interval (args s) = 0 then Inl (ZeroDivisionError, s)
      else if int step mod log_interval (args s) = 0 then
        (let spend_time = log_time (fw g) epoch step - epoch_start_time (fw g) epoch in
         if lrs s = [] then Inl (IndexError, s)
         else
           let item = map_option (\<lambda>l. l * of_int (accumulation_steps (args s))) loss;
               eta = epoch_time spend_time step (iter_per_epoch g);
               s = Logger g (TrainLog (epoch + 1) (epochs (args s)) step (iter_per_epoch g)
                               item (last (lrs s)) eta) s
           in Inr (if wandb g \<and> (\<not> ddp g \<or> rank g = 0)
                   then emit (WandbLog item (last (lrs s)) eta) s else s))
      else Inr s)"

text \<open>Lines 119 to 130.\<close>

definition ckp_path :: "string \<Rightarrow> lm_config \<Rightarrow> string" where
  "ckp_path dir c =
     dir @ ''/pretrain_'' @ str_int (cfg_dim c) @ (if cfg_use_moe c then ''_moe'' else [])
       @ ''.pth''"

definition save_step :: "globals \<Rightarrow> nat \<Rightarrow> world \<Rightarrow> outcome" where
  "save_step g step s =
     (if save_interval (args s) = 0 then Inl (ZeroDivisionError, s)
      else if (int step + 1) mod save_interval (args s) = 0 \<and> (\<not> ddp g \<or> rank g = 0) then
        (let s = model_eval s in
         case save_dir (args s) of
           None \<Rightarrow> Inl (AttributeError, s)
         | Some dir \<Rightarrow> Inr (model_train (torch_save (ckp_path dir (lm_config g)) s)))
      else Inr s)"

definition train_epoch_body :: "globals \<Rightarrow> nat \<Rightarrow> nat \<Rightarrow> batch \<Rightarrow> world \<Rightarrow> outcome" where
  "train_epoch_body g epoch step b s =
     then_do (forward_backward g epoch step b s) (\<lambda>(loss, s).
       then_do (then_do (accumulation_boundary step s) (log_step g epoch step loss))
               (save_step g step))"

subsection \<open>The loops\<close>

text \<open>\<^verbatim>\<open>for step, (X, Y, loss_mask) in enumerate(train_loader)\<close>, from index \<open>step\<close> on.\<close>

fun enumerate_loop :: "globals \<Rightarrow> nat \<Rightarrow> nat \<Rightarrow> batch list \<Rightarrow> world \<Rightarrow> outcome" where
  "enumerate_loop g epoch step [] s = Inr s"
| "enumerate_loop g epoch step (b # bs) s =
     then_do (train_epoch_body g epoch step b s) (enumerate_loop g epoch (Suc step) bs)"

definition train_epoch :: "globals \<Rightarrow> nat \<Rightarrow> world \<Rightarrow> outcome" where
  "train_epoch g epoch s = enumerate_loop g epoch 0 (train_loader g) s"

text \<open>\<^verbatim>\<open>for epoch in range(args.epochs): train_epoch(epoch, wandb)\<close>\<close>

fun epoch_loop :: "globals \<Rightarrow> nat list \<Rightarrow> world \<Rightarrow> outcome" where
  "epoch_loop g [] s = Inr s"
| "epoch_loop g (epoch # es) s = then_do (train_epoch g epoch s) (epoch_loop g es)"

definition train_all :: "globals \<Rightarrow> world \<Rightarrow> outcome" where
  "train_all g s = epoch_loop g [0..<nat (epochs (args s))] s"

subsection \<open>Start-up\<close>

record os_environ =
  RANK :: "int option"
  LOCAL_RANK :: "int option"
  WORLD_SIZE :: "int option"

text \<open>
  \<^verbatim>\<open>init_distributed_mode\<close> rebinds the globals \<^verbatim>\<open>ddp_local_rank\<close> and
  \<^verbatim>\<open>DEVICE\<close>; \<^verbatim>\<open>os.environ[...]\<close> raises \<^verbatim>\<open>KeyError\<close> on a missing variable.
\<close>

definition init_distributed_mode ::
  "bool \<Rightarrow> os_environ \<Rightarrow> int \<times> string \<Rightarrow> py_error + int \<times> string" where
  "init_distributed_mode is_ddp env cur =
     (if \<not> is_ddp then Inr cur
      else case RANK env of
        None \<Rightarrow> Inl KeyError
      | Some ddp_rank \<Rightarrow>
          (case LOCAL_RANK env of
             None \<Rightarrow> Inl KeyError
           | Some l \<Rightarrow>
               (case WORLD_SIZE env of
                  None \<Rightarrow> Inl KeyError
                | Some ddp_world_size \<Rightarrow> Inr (l, ''cuda:'' @ str_int l))))"

text \<open>
  Lines 177 to 232, after \<^verbatim>\<open>parse_args\<close>: the model configuration, the two
  attributes added to \<^verbatim>\<open>args\<close>, the distributed mode, and the device written back
  into \<^verbatim>\<open>args\<close> under distributed execution. \<^verbatim>\<open>os.path.join\<close> of one path is
  that path; the directories made by \<^verbatim>\<open>os.makedirs\<close>, the random seed and the
  autocast context are not part of the state.
\<close>

definition startup ::
  "os_environ \<Rightarrow> framework \<Rightarrow> world \<Rightarrow>
     (py_error \<times> world) + ((lm_config \<times> bool \<times> int \<times> string) \<times> world)" where
  "startup env f s =
     (let lmc = LMConfig (dim (args s)) (n_layers (args s)) (max_seq_len (args s))
                         (use_moe (args s));
          s = s\<lparr>args := (args s)\<lparr>save_dir := Some (out_dir (args s))\<rparr>\<rparr>;
          s = s\<lparr>args := (args s)\<lparr>wandb_run_name :=
                 Some (''MiniMind-Pretrain-Epoch-'' @ str_int (epochs (args s))
                       @ ''-BatchSize-'' @ str_int (batch_size (args s))
                       @ ''-LearningRate-'' @ fmt_float f (learning_rate (args s)))\<rparr>\<rparr>;
          is_ddp = (case RANK env of None \<Rightarrow> False | Some r \<Rightarrow> r \<noteq> - 1)
      in if is_ddp then
           (case init_distributed_mode is_ddp env (0, ''cuda:0'') of
              Inl e \<Rightarrow> Inl (e, s)
            | Inr (l, d) \<Rightarrow> Inr ((lmc, is_ddp, l, d), s\<lparr>args := (args s)\<lparr>device := d\<rparr>\<rparr>))
         else Inr ((lmc, is_ddp, 0, ''cuda:0''), s))"

text \<open>
  Lines 239 to 322: the \<^verbatim>\<open>wandb\<close> global, \<^verbatim>\<open>init_model\<close> with its log line, the
  optimizer with its single parameter group, and the loop over the epochs. A new
  module is in training mode and has no gradients. The rank of a process of a
  distributed launch is the \<^verbatim>\<open>RANK\<close> of its environment; in a single process
  \<^verbatim>\<open>dist.get_rank()\<close> is never called.
\<close>

definition run_training ::
  "os_environ \<Rightarrow> framework \<Rightarrow> batch list \<Rightarrow> lm_config \<times> bool \<times> int \<times> string \<Rightarrow> world \<Rightarrow> outcome" where
  "run_training env f loader p s =
     (case p of (lmc, is_ddp, l, d) \<Rightarrow>
        let g = \<lparr>lm_config = lmc, ddp = is_ddp,
                 rank = (case RANK env of None \<Rightarrow> - 1 | Some r \<Rightarrow> r),
                 ddp_local_rank = l, DEVICE = d,
                 wandb = (use_wandb (args s) \<and> (\<not> is_ddp \<or> l = 0)),
                 train_loader = loader, fw = f\<rparr>;
            s = Logger g (ParamCount (n_params f)) s;
            s = s\<lparr>lrs := [learning_rate (args s)]\<rparr>
        in train_all g s)"

definition boot :: "namespace \<Rightarrow> (string \<rightharpoonup> snapshot) \<Rightarrow> world" where
  "boot parsed fs =
     \<lparr>args = parsed, lrs = [], pending = [], applied = [], training = True, files = fs, trace = []\<rparr>"

definition main ::
  "os_environ \<Rightarrow> framework \<Rightarrow> batch list \<Rightarrow> namespace \<Rightarrow> (string \<rightharpoonup> snapshot) \<Rightarrow> outcome" where
  "main env f loader parsed fs =
     then_do (startup env f (boot parsed fs)) (\<lambda>(p, s). run_training env f loader p s)"

subsection \<open>Runs that do not raise\<close>

text \<open>
  The conditions under which no statement of the loop body raises: the divisors are not
  zero, the optimizer has a parameter group, \<^verbatim>\<open>args.save_dir\<close> exists, and the
  tensors of every batch have one shape.
\<close>

definition shapes_agree :: "framework \<Rightarrow> batch \<Rightarrow> bool" where
  "shapes_agree f b =
     (case b of (X, Y, loss_mask) \<Rightarrow>
        length loss_mask = length Y \<and> (\<forall>params. length (fst (model_fwd f params X)) = length Y))"

definition runnable :: "globals \<Rightarrow> world \<Rightarrow> bool" where
  "runnable g s \<longleftrightarrow>
     epochs (args s) \<noteq> 0 \<and> accumulation_steps (args s) \<noteq> 0 \<and> log_interval (args s) \<noteq> 0
     \<and> save_interval (args s) \<noteq> 0 \<and> lrs s \<noteq> [] \<and> save_dir (args s) \<noteq> None
     \<and> (\<forall>b \<in> set (train_loader g). shapes_agree (fw g) b)"

subsection \<open>A small concrete run\<close>

text \<open>
  Two epochs over three batches of two positions each, an optimizer update every second
  micro-step, a log line and a checkpoint every second micro-step, one process. The
  model of this run returns the token ids as logits and their sum as auxiliary loss;
  the loss of a position is its logit plus its target. \<open>demo_world\<close> is the state in which the
  loop over the epochs starts.
\<close>

definition demo_args :: namespace where
  "demo_args =
     \<lparr>out_dir = ''out'', epochs = 2, batch_size = 1, learning_rate = 1, device = ''cpu'',
      dtype = ''bfloat16'', use_wandb = False, wandb_project = ''MiniMind-Pretrain'',
      num_workers = 1, ddp_flag = False, accumulation_steps = 2, grad_clip = 1,
      warmup_iters = 0, log_interval = 2, save_interval = 2, local_rank = - 1, dim = 512,
      n_layers = 8, max_seq_len = 512, use_moe = False,
      data_path = ''./dataset/pretrain_hq.jsonl'', save_dir = None, wandb_run_name = None\<rparr>"

definition demo_fw :: framework where
  "demo_fw =
     \<lparr>model_fwd = (\<lambda>params X. (map (\<lambda>x. [of_int x]) X, of_int (sum_list X))),
      loss_fct = (\<lambda>logit y. sum_list logit + of_int y),
      n_params = 26,
      epoch_start_time = (\<lambda>epoch. 0),
      log_time = (\<lambda>epoch step. 0),
      fmt_float = (\<lambda>x. ''1.0'')\<rparr>"

definition demo_loader :: "batch list" where
  "demo_loader = [([1, 2], [2, 3], [1, 0]), ([4, 5], [5, 6], [1, 1]), ([7, 8], [8, 9], [1, 0])]"

definition demo_env :: os_environ where
  "demo_env = \<lparr>RANK = None, LOCAL_RANK = None, WORLD_SIZE = None\<rparr>"

definition demo_globals :: globals where
  "demo_globals =
     \<lparr>lm_config = LMConfig 512 8 512 False, ddp = False, rank = - 1, ddp_local_rank = 0,
      DEVICE = ''cuda:0'', wandb = False, train_loader = demo_loader, fw = demo_fw\<rparr>"

definition demo_world :: world where
  "demo_world =
     \<lparr>args = demo_args\<lparr>save_dir := Some ''out'',
        wandb_run_name := Some ''MiniMind-Pretrain-Epoch-2-BatchSize-1-LearningRate-1.0''\<rparr>,
      lrs = [1], pending = [], applied = [], training = True, files = Map.empty,
      trace = [Print (ParamCount 26)]\<rparr>"

subsection \<open>Counting what a run did\<close>

text \<open>The micro-batches \<open>i, \<dots>, j - 1\<close> of an epoch.\<close>

definition micro_batches :: "nat \<Rightarrow> nat \<Rightarrow> nat \<Rightarrow> micro_batch list" where
  "micro_batches epoch i j = map (Pair epoch) [i..<j]"

text \<open>
  The optimizer updates of an epoch of \<open>n\<close> micro-steps with an update every \<open>a\<close>
  micro-steps, when the gradients of \<open>p\<close> are in the buffers at its start: the first
  update applies \<open>p\<close> and the first \<open>a\<close> micro-batches, every later one the next
  \<open>a\<close> micro-batches.
\<close>

definition epoch_updates :: "micro_batch list \<Rightarrow> nat \<Rightarrow> nat \<Rightarrow> nat \<Rightarrow> snapshot" where
  "epoch_updates p epoch a n =
     (if n < a then []
      else (p @ micro_batches epoch 0 a)
           # map (\<lambda>j. micro_batches epoch (j * a) (j * a + a)) [1..<n div a])"

definition optimizer_steps :: "event list \<Rightarrow> nat" where
  "optimizer_steps tr = length (filter (\<lambda>e. e = OptimizerStep) tr)"

definition backward_calls :: "event list \<Rightarrow> nat" where
  "backward_calls tr = length (filter (\<lambda>e. case e of Backward l \<Rightarrow> True | _ \<Rightarrow> False) tr)"

text \<open>
  The framework calls a micro-step has made: what it appended to the trace. The calls
  of the update at an accumulation boundary are told apart from the others.
\<close>

definition new_events :: "world \<Rightarrow> world \<Rightarrow> event list" where
  "new_events s s' = drop (length (trace s)) (trace s')"

fun update_call :: "event \<Rightarrow> bool" where
  "update_call Unscale = True"
| "update_call (ClipGradNorm c) = True"
| "update_call OptimizerStep = True"
| "update_call ScalerUpdate = True"
| "update_call ZeroGrad = True"
| "update_call e = False"

text \<open>The log lines printed and the checkpoint files written, in the order of a trace.\<close>

fun printed :: "event list \<Rightarrow> log_content list" where
  "printed [] = []"
| "printed (Print c # es) = c # printed es"
| "printed (e # es) = printed es"

fun saved :: "event list \<Rightarrow> (string \<times> snapshot) list" where
  "saved [] = []"
| "saved (TorchSave p v # es) = (p, v) # saved es"
| "saved (e # es) = saved es"

text \<open>The same run as two processes of a distributed launch, with ranks 0 and 1.\<close>

definition demo_rank0 :: globals where
  "demo_rank0 = demo_globals\<lparr>ddp := True, rank := 0\<rparr>"

definition demo_rank1 :: globals where
  "demo_rank1 = demo_globals\<lparr>ddp := True, rank := 1, ddp_local_rank := 1, DEVICE := ''cuda:1''\<rparr>"

subsection \<open>What the loop leaves alone\<close>

text \<open>
  A statement is \<open>quiet\<close> when it changes neither \<^verbatim>\<open>args\<close> nor a file and
  writes no checkpoint. The effect of a micro-step on \<^verbatim>\<open>args\<close> and the files, whether
  it completes or raises: \<^verbatim>\<open>args\<close> is unchanged, and either nothing is written or
  one snapshot is written to the checkpoint path.
\<close>

definition quiet :: "world \<Rightarrow> world \<Rightarrow> bool" where
  "quiet s s' \<longleftrightarrow>
     args s' = args s \<and> files s' = files s \<and> saved (trace s') = saved (trace s)"

definition step_effect :: "globals \<Rightarrow> world \<Rightarrow> world \<Rightarrow> bool" where
  "step_effect g s s' \<longleftrightarrow>
     args s' = args s
     \<and> (files s' = files s \<and> saved (trace s') = saved (trace s)
        \<or> (\<exists>dir v. save_dir (args s) = Some dir
              \<and> files s' = (files s)(ckp_path dir (lm_config g) \<mapsto> v)
              \<and> saved (trace s') = saved (trace s) @ [(ckp_path dir (lm_config g), v)]))"

text \<open>
  The state of the checkpoint file: every write of the trace went to \<open>ckp\<close>, every
  other file is as it was at the start (\<open>fs\<close>), and \<open>ckp\<close> holds the snapshot of
  the last write, if there was one.
\<close>

definition ckpt_inv :: "string \<Rightarrow> (string \<rightharpoonup> snapshot) \<Rightarrow> world \<Rightarrow> bool" where
  "ckpt_inv ckp fs s \<longleftrightarrow>
     (\<forall>w \<in> set (saved (trace s)). fst w = ckp)
     \<and> (\<forall>q. q \<noteq> ckp \<longrightarrow> files s q = fs q)
     \<and> files s ckp = (if saved (trace s) = [] then fs ckp
                      else Some (snd (last (saved (trace s)))))"

section \<open>Properties\<close>

subsection \<open>Sequencing and the framework calls\<close>

lemma then_do_Inr_iff: "then_do r f = Inr y \<longleftrightarrow> (\<exists>x. r = Inr x \<and> f x = Inr y)"
  by (cases r) (simp_all add: then_do_def)

lemma then_do_Inr [simp]: "then_do (Inr x) f = f x"
  by (simp add: then_do_def)

lemma then_do_Inl [simp]: "then_do (Inl e) f = Inl e"
  by (simp add: then_do_def)

lemma then_do_assoc: "then_do (then_do r f) h = then_do r (\<lambda>x. then_do (f x) h)"
  by (cases r) simp_all

lemma final_Inr [simp]: "final (Inr s) = s"
  by (simp add: final_def)

lemma final_Inl [simp]: "final (Inl (e, s)) = s"
  by (simp add: final_def)

lemma emit_fields [simp]:
  "args (emit e s) = args s" "lrs (emit e s) = lrs s" "pending (emit e s) = pending s"
  "applied (emit e s) = applied s" "training (emit e s) = training s"
  "files (emit e s) = files s" "trace (emit e s) = trace s @ [e]"
  by (simp_all add: emit_def)

lemma set_lr_fields [simp]:
  "args (set_lr lr s) = args s" "lrs (set_lr lr s) = map (\<lambda>_. lr) (lrs s)"
  "pending (set_lr lr s) = pending s" "applied (set_lr lr s) = applied s"
  "training (set_lr lr s) = training s" "files (set_lr lr s) = files s"
  "trace (set_lr lr s) = trace s @ [SetLR lr]"
  by (simp_all add: set_lr_def)

lemma backward_fields [simp]:
  "args (backward b l s) = args s" "lrs (backward b l s) = lrs s"
  "pending (backward b l s) = pending s @ [b]" "applied (backward b l s) = applied s"
  "training (backward b l s) = training s" "files (backward b l s) = files s"
  "trace (backward b l s) = trace s @ [Backward l]"
  by (simp_all add: backward_def)

lemma unscale_fields [simp]:
  "args (unscale s) = args s" "lrs (unscale s) = lrs s" "pending (unscale s) = pending s"
  "applied (unscale s) = applied s" "training (unscale s) = training s"
  "files (unscale s) = files s" "trace (unscale s) = trace s @ [Unscale]"
  by (simp_all add: unscale_def)

lemma clip_grad_norm_fields [simp]:
  "args (clip_grad_norm c s) = args s" "lrs (clip_grad_norm c s) = lrs s"
  "pending (clip_grad_norm c s) = pending s" "applied (clip_grad_norm c s) = applied s"
  "training (clip_grad_norm c s) = training s" "files (clip_grad_norm c s) = files s"
  "trace (clip_grad_norm c s) = trace s @ [ClipGradNorm c]"
  by (simp_all add: clip_grad_norm_def)

lemma scaler_step_fields [simp]:
  "args (scaler_step s) = args s" "lrs (scaler_step s) = lrs s"
  "pending (scaler_step s) = pending s" "applied (scaler_step s) = applied s @ [pending s]"
  "training (scaler_step s) = training s" "files (scaler_step s) = files s"
  "trace (scaler_step s) = trace s @ [OptimizerStep]"
  by (simp_all add: scaler_step_def)

lemma scaler_update_fields [simp]:
  "args (scaler_update s) = args s" "lrs (scaler_update s) = lrs s"
  "pending (scaler_update s) = pending s" "applied (scaler_update s) = applied s"
  "training (scaler_update s) = training s" "files (scaler_update s) = files s"
  "trace (scaler_update s) = trace s @ [ScalerUpdate]"
  by (simp_all add: scaler_update_def)

lemma zero_grad_fields [simp]:
  "args (zero_grad s) = args s" "lrs (zero_grad s) = lrs s" "pending (zero_grad s) = []"
  "applied (zero_grad s) = applied s" "training (zero_grad s) = training s"
  "files (zero_grad s) = files s" "trace (zero_grad s) = trace s @ [ZeroGrad]"
  by (simp_all add: zero_grad_def)

lemma model_eval_fields [simp]:
  "args (model_eval s) = args s" "lrs (model_eval s) = lrs s"
  "pending (model_eval s) = pending s" "applied (model_eval s) = applied s"
  "training (model_eval s) = False" "files (model_eval s) = files s"
  "trace (model_eval s) = trace s @ [ModelEval]"
  by (simp_all add: model_eval_def)

lemma model_train_fields [simp]:
  "args (model_train s) = args s" "lrs (model_train s) = lrs s"
  "pending (model_train s) = pending s" "applied (model_train s) = applied s"
  "training (model_train s) = True" "files (model_train s) = files s"
  "trace (model_train s) = trace s @ [ModelTrain]"
  by (simp_all add: model_train_def)

lemma torch_save_fields [simp]:
  "args (torch_save p s) = args s" "lrs (torch_save p s) = lrs s"
  "pending (torch_save p s) = pending s" "applied (torch_save p s) = applied s"
  "training (torch_save p s) = training s" "files (torch_save p s) = (files s)(p \<mapsto> applied s)"
  "trace (torch_save p s) = trace s @ [TorchSave p (applied s)]"
  by (simp_all add: torch_save_def)

lemma Logger_fields [simp]:
  "args (Logger g c s) = args s" "lrs (Logger g c s) = lrs s"
  "pending (Logger g c s) = pending s" "applied (Logger g c s) = applied s"
  "training (Logger g c s) = training s" "files (Logger g c s) = files s"
  "trace (Logger g c s) = trace s @ (if designated g then [Print c] else [])"
  by (simp_all add: Logger_def designated_def)

subsection \<open>The four parts of the loop body\<close>

lemma forward_backward_Inr:
  assumes "forward_backward g epoch step b s = Inr (loss, s1)"
  shows "\<exists>lr. get_lr (int epoch * int (iter_per_epoch g) + int step)
                  (epochs (args s) * int (iter_per_epoch g)) (learning_rate (args s)) = Inr lr
          \<and> micro_loss (fw g) (applied s) (accumulation_steps (args s)) b = Inr loss
          \<and> s1 = backward (epoch, step) loss (emit (Forward (fst b)) (set_lr lr s))"
  using assms by (auto simp: forward_backward_def Let_def split: sum.splits)

lemma accumulation_boundary_Inr:
  assumes "accumulation_boundary step s = Inr s'"
  shows "accumulation_steps (args s) \<noteq> 0"
    and "s' = (if (int step + 1) mod accumulation_steps (args s) = 0
               then zero_grad (scaler_update (scaler_step
                      (clip_grad_norm (grad_clip (args s)) (unscale s))))
               else s)"
  using assms by (auto simp: accumulation_boundary_def split: if_splits)

lemma log_step_Inr:
  assumes "log_step g epoch step loss s = Inr s'"
  shows "log_interval (args s) \<noteq> 0"
    and "args s' = args s" and "lrs s' = lrs s" and "pending s' = pending s"
    and "applied s' = applied s" and "training s' = training s" and "files s' = files s"
  using assms by (auto simp: log_step_def Let_def split: if_splits)

lemma save_step_Inr:
  assumes "save_step g step s = Inr s'"
  shows "save_interval (args s) \<noteq> 0"
    and "args s' = args s" and "lrs s' = lrs s" and "pending s' = pending s"
    and "applied s' = applied s"
  using assms by (auto simp: save_step_def Let_def split: if_splits option.splits)

lemma body_Inr:
  assumes "train_epoch_body g epoch step b s = Inr s'"
  obtains loss s1 s2 s3 where
    "forward_backward g epoch step b s = Inr (loss, s1)"
    "accumulation_boundary step s1 = Inr s2"
    "log_step g epoch step loss s2 = Inr s3"
    "save_step g step s3 = Inr s'"
  using assms by (auto simp: train_epoch_body_def then_do_Inr_iff)

lemma body_grads:
  assumes "train_epoch_body g epoch step b s = Inr s'"
  shows "accumulation_steps (args s) \<noteq> 0"
    and "args s' = args s"
    and "pending s' = (if (int step + 1) mod accumulation_steps (args s) = 0 then []
                       else pending s @ [(epoch, step)])"
    and "applied s' = (if (int step + 1) mod accumulation_steps (args s) = 0
                       then applied s @ [pending s @ [(epoch, step)]] else applied s)"
proof -
  obtain loss s1 s2 s3 where
    fb: "forward_backward g epoch step b s = Inr (loss, s1)" and
    ab: "accumulation_boundary step s1 = Inr s2" and
    lg: "log_step g epoch step loss s2 = Inr s3" and
    sv: "save_step g step s3 = Inr s'"
    using assms by (rule body_Inr)
  from forward_backward_Inr [OF fb] obtain lr where
    s1: "s1 = backward (epoch, step) loss (emit (Forward (fst b)) (set_lr lr s))" by blast
  have a1: "args s1 = args s" and p1: "pending s1 = pending s @ [(epoch, step)]"
    and u1: "applied s1 = applied s" by (simp_all add: s1)
  note ab' = accumulation_boundary_Inr [OF ab, unfolded a1]
  note lg' = log_step_Inr [OF lg]
  note sv' = save_step_Inr [OF sv]
  show "accumulation_steps (args s) \<noteq> 0" by (rule ab'(1))
  show "args s' = args s" by (simp add: sv'(2) lg'(2) ab'(2) a1)
  show "pending s' = (if (int step + 1) mod accumulation_steps (args s) = 0 then []
                       else pending s @ [(epoch, step)])"
    by (simp add: sv'(4) lg'(4) ab'(2) p1)
  show "applied s' = (if (int step + 1) mod accumulation_steps (args s) = 0
                       then applied s @ [pending s @ [(epoch, step)]] else applied s)"
    by (simp add: sv'(5) lg'(5) ab'(2) p1 u1)
qed

subsection \<open>The loop over the batches\<close>

lemma enumerate_loop_snoc:
  "enumerate_loop g epoch step (bs @ [b]) s =
     then_do (enumerate_loop g epoch step bs s) (train_epoch_body g epoch (step + length bs) b)"
proof (induction bs arbitrary: step s)
  case Nil
  show ?case by (cases "train_epoch_body g epoch step b s") simp_all
next
  case (Cons a bs)
  show ?case
    by (cases "train_epoch_body g epoch step a s") (simp_all add: Cons.IH)
qed

subsection \<open>Completion\<close>

lemma micro_loss_shapes:
  assumes "shapes_agree f b"
  shows "\<exists>loss. micro_loss f params acc b = Inr loss"
proof -
  obtain X Y loss_mask where b: "b = (X, Y, loss_mask)" by (cases b)
  obtain logits aux where m: "model_fwd f params X = (logits, aux)" by (cases "model_fwd f params X")
  from assms b have "length loss_mask = length Y" "length (fst (model_fwd f params X)) = length Y"
    by (simp_all add: shapes_agree_def)
  with m show ?thesis by (simp add: micro_loss_def b Let_def)
qed

lemma body_completes:
  assumes "runnable g s" and "b \<in> set (train_loader g)"
  shows "\<exists>s'. train_epoch_body g epoch step b s = Inr s' \<and> runnable g s'"
proof -
  from assms(2) have n: "iter_per_epoch g \<noteq> 0" by (auto simp: iter_per_epoch_def)
  from assms have sh: "shapes_agree (fw g) b" by (simp add: runnable_def)
  from assms(1) n obtain lr where
    lr: "get_lr (int epoch * int (iter_per_epoch g) + int step)
           (epochs (args s) * int (iter_per_epoch g)) (learning_rate (args s)) = Inr lr"
    by (auto simp: get_lr_def runnable_def)
  from micro_loss_shapes [OF sh] obtain loss where
    ml: "micro_loss (fw g) (applied s) (accumulation_steps (args s)) b = Inr loss" by blast
  define s1 where "s1 = backward (epoch, step) loss (emit (Forward (fst b)) (set_lr lr s))"
  have fb: "forward_backward g epoch step b s = Inr (loss, s1)"
    by (simp add: forward_backward_def lr ml s1_def Let_def)
  have r1: "runnable g s1" using assms(1) by (simp add: runnable_def s1_def)
  have "\<exists>s2. accumulation_boundary step s1 = Inr s2"
    using r1 by (simp add: accumulation_boundary_def runnable_def)
  then obtain s2 where ab: "accumulation_boundary step s1 = Inr s2" ..
  have r2: "runnable g s2"
    using r1 accumulation_boundary_Inr(2) [OF ab] by (auto simp: runnable_def split: if_splits)
  have "\<exists>s3. log_step g epoch step loss s2 = Inr s3"
    using r2 by (simp add: log_step_def runnable_def Let_def)
  then obtain s3 where lg: "log_step g epoch step loss s2 = Inr s3" ..
  have r3: "runnable g s3" using r2 log_step_Inr [OF lg] by (simp add: runnable_def)
  have "\<exists>s4. save_step g step s3 = Inr s4"
    using r3 by (auto simp: save_step_def runnable_def Let_def)
  then obtain s4 where sv: "save_step g step s3 = Inr s4" ..
  have r4: "runnable g s4" using r3 save_step_Inr [OF sv] by (simp add: runnable_def)
  have "train_epoch_body g epoch step b s = Inr s4"
    by (simp add: train_epoch_body_def fb ab lg sv)
  with r4 show ?thesis by blast
qed

lemma enumerate_loop_completes:
  assumes "runnable g s" and "set bs \<subseteq> set (train_loader g)"
  shows "\<exists>s'. enumerate_loop g epoch step bs s = Inr s' \<and> runnable g s'"
  using assms
proof (induction bs arbitrary: step s)
  case Nil
  then show ?case by simp
next
  case (Cons b bs)
  from Cons.prems obtain s1 where
    s1: "train_epoch_body g epoch step b s = Inr s1" "runnable g s1"
    using body_completes [of g s b epoch step] by auto
  from Cons.IH [of s1 "Suc step"] Cons.prems s1 show ?case by simp
qed

lemma train_epoch_completes:
  assumes "runnable g s"
  shows "\<exists>s'. train_epoch g epoch s = Inr s' \<and> runnable g s'"
  unfolding train_epoch_def using enumerate_loop_completes [OF assms subset_refl] .

lemma demo_runnable: "runnable demo_globals demo_world"
  by (simp add: runnable_def demo_globals_def demo_world_def demo_args_def demo_loader_def
        demo_fw_def shapes_agree_def)

subsection \<open>The learning rate\<close>



lemma body_lrs:
  assumes "train_epoch_body g epoch step b s = Inr s'"
  shows "\<exists>v. get_lr (int epoch * int (iter_per_epoch g) + int step)
                 (epochs (args s) * int (iter_per_epoch g)) (learning_rate (args s)) = Inr v
          \<and> lrs s' = map (\<lambda>_. v) (lrs s)"
proof -
  obtain loss s1 s2 s3 where
    fb: "forward_backward g epoch step b s = Inr (loss, s1)" and
    ab: "accumulation_boundary step s1 = Inr s2" and
    lg: "log_step g epoch step loss s2 = Inr s3" and
    sv: "save_step g step s3 = Inr s'"
    using assms by (rule body_Inr)
  from forward_backward_Inr [OF fb] obtain lr where
    lr: "get_lr (int epoch * int (iter_per_epoch g) + int step)
           (epochs (args s) * int (iter_per_epoch g)) (learning_rate (args s)) = Inr lr" and
    s1: "s1 = backward (epoch, step) loss (emit (Forward (fst b)) (set_lr lr s))" by blast
  have "lrs s' = lrs s1"
    using save_step_Inr(3) [OF sv] log_step_Inr(3) [OF lg] accumulation_boundary_Inr(2) [OF ab]
    by (simp split: if_splits)
  with lr s1 show ?thesis by simp
qed




subsection \<open>Gradient accumulation within an epoch\<close>

lemma boundary_nat:
  assumes "0 < acc"
  shows "((int step + 1) mod acc = 0) = (Suc step mod nat acc = 0)"
proof -
  have "int (Suc step mod nat acc) = (int step + 1) mod acc"
    using assms by (simp add: zmod_int add.commute)
  then show ?thesis by (metis of_nat_eq_0_iff)
qed

lemma micro_batches_snoc: "i \<le> j \<Longrightarrow> micro_batches e i j @ [(e, j)] = micro_batches e i (Suc j)"
  by (simp add: micro_batches_def)

lemma micro_batches_empty [simp]: "micro_batches e i i = []"
  by (simp add: micro_batches_def)

lemma epoch_updates_Suc:
  assumes "0 < a"
  shows "epoch_updates p e a (Suc n) =
           (if Suc n mod a = 0
            then epoch_updates p e a n
                 @ [(if n < a then p else []) @ micro_batches e (n div a * a) (Suc n)]
            else epoch_updates p e a n)"
proof (cases "Suc n mod a = 0")
  case False
  then have d: "Suc n div a = n div a" by (simp add: div_Suc)
  have "Suc n \<noteq> a" using False by auto
  then have "(Suc n < a) = (n < a)" by auto
  with d False show ?thesis by (simp add: epoch_updates_def)
next
  case True
  then have d: "Suc n div a = Suc (n div a)" by (simp add: div_Suc)
  have sn: "Suc n = Suc (n div a) * a" using True d by (metis div_mult_mod_eq add.right_neutral)
  show ?thesis
  proof (cases "n < a")
    case lt: True
    then have "n div a = 0" by simp
    with sn have "Suc n = a" by simp
    with lt True show ?thesis by (auto simp: epoch_updates_def)
  next
    case ge: False
    then have q: "1 \<le> n div a" using assms by (simp add: Suc_le_eq div_greater_zero_iff)
    have "[1..<Suc (n div a)] = [1..<n div a] @ [n div a]" using q by simp
    moreover have "n div a * a + a = Suc n" using sn by simp
    ultimately show ?thesis using ge True d by (simp add: epoch_updates_def)
  qed
qed

lemma pending_Suc:
  assumes "0 < a"
  shows "(if Suc n < a then p else []) @ micro_batches e (Suc n div a * a) (Suc n) =
           (if Suc n mod a = 0 then []
            else ((if n < a then p else []) @ micro_batches e (n div a * a) n) @ [(e, n)])"
proof (cases "Suc n mod a = 0")
  case False
  then have d: "Suc n div a = n div a" by (simp add: div_Suc)
  have "Suc n \<noteq> a" using False by auto
  then have lt: "(Suc n < a) = (n < a)" by auto
  have "n div a * a \<le> n" by simp
  from micro_batches_snoc [OF this, of e] d lt False show ?thesis by simp
next
  case True
  then have d: "Suc n div a = Suc (n div a)" by (simp add: div_Suc)
  have sn: "Suc n = Suc (n div a) * a" using True d by (metis div_mult_mod_eq add.right_neutral)
  have "\<not> Suc n < a" using sn assms by (metis le_add1 mult_Suc not_less)
  with True d sn show ?thesis by simp
qed

lemma enumerate_grads:
  assumes "0 < accumulation_steps (args s)"
    and "enumerate_loop g epoch 0 bs s = Inr s'"
  shows "args s' = args s
       \<and> pending s' = (if length bs < nat (accumulation_steps (args s)) then pending s else [])
                      @ micro_batches epoch
                          (length bs div nat (accumulation_steps (args s))
                             * nat (accumulation_steps (args s))) (length bs)
       \<and> applied s' = applied s
                      @ epoch_updates (pending s) epoch (nat (accumulation_steps (args s)))
                          (length bs)"
  using assms(2)
proof (induction bs arbitrary: s' rule: rev_induct)
  case Nil
  then show ?case using assms(1) by (simp add: epoch_updates_def)
next
  case (snoc b bs)
  define a where "a = nat (accumulation_steps (args s))"
  have a: "0 < a" using assms(1) by (simp add: a_def)
  from snoc.prems obtain s1 where
    s1: "enumerate_loop g epoch 0 bs s = Inr s1" and
    bd: "train_epoch_body g epoch (length bs) b s1 = Inr s'"
    by (auto simp: enumerate_loop_snoc then_do_Inr_iff)
  note ih = snoc.IH [OF s1, folded a_def]
  have acc: "accumulation_steps (args s1) = accumulation_steps (args s)" using ih by simp
  have bn: "((int (length bs) + 1) mod accumulation_steps (args s1) = 0)
              = (Suc (length bs) mod a = 0)"
    unfolding acc a_def by (rule boundary_nat [OF assms(1)])
  note g = body_grads(2-4) [OF bd, unfolded bn]
  have "args s' = args s" using g(1) ih by simp
  moreover have "pending s' = (if length (bs @ [b]) < a then pending s else [])
                   @ micro_batches epoch (length (bs @ [b]) div a * a) (length (bs @ [b]))"
    using g(2) ih pending_Suc [OF a, of "length bs" "pending s" epoch] by simp
  moreover have "micro_batches epoch (length bs div a * a) (length bs) @ [(epoch, length bs)]
                   = micro_batches epoch (length bs div a * a) (Suc (length bs))"
    by (rule micro_batches_snoc) simp
  then have "applied s' = applied s @ epoch_updates (pending s) epoch a (length (bs @ [b]))"
    using g(3) ih epoch_updates_Suc [OF a, of "pending s" epoch "length bs"] by simp
  ultimately show ?case unfolding a_def by blast
qed

lemma body_counts:
  assumes "train_epoch_body g epoch step b s = Inr s'"
  shows "backward_calls (trace s') = Suc (backward_calls (trace s))"
    and "optimizer_steps (trace s') = optimizer_steps (trace s)
           + (if (int step + 1) mod accumulation_steps (args s) = 0 then 1 else 0)"
proof -
  obtain loss s1 s2 s3 where
    fb: "forward_backward g epoch step b s = Inr (loss, s1)" and
    ab: "accumulation_boundary step s1 = Inr s2" and
    lg: "log_step g epoch step loss s2 = Inr s3" and
    sv: "save_step g step s3 = Inr s'"
    using assms by (rule body_Inr)
  from forward_backward_Inr [OF fb] obtain lr where
    s1: "s1 = backward (epoch, step) loss (emit (Forward (fst b)) (set_lr lr s))" by blast
  have t1: "backward_calls (trace s1) = Suc (backward_calls (trace s))"
    "optimizer_steps (trace s1) = optimizer_steps (trace s)" "args s1 = args s"
    by (simp_all add: s1 backward_calls_def optimizer_steps_def)
  have t2: "backward_calls (trace s2) = backward_calls (trace s1)"
    "optimizer_steps (trace s2) = optimizer_steps (trace s1)
       + (if (int step + 1) mod accumulation_steps (args s1) = 0 then 1 else 0)"
    using accumulation_boundary_Inr(2) [OF ab]
    by (simp_all add: backward_calls_def optimizer_steps_def)
  have t3: "backward_calls (trace s3) = backward_calls (trace s2)"
    "optimizer_steps (trace s3) = optimizer_steps (trace s2)"
    using lg
    by (auto simp: log_step_def Let_def backward_calls_def optimizer_steps_def split: if_splits)
  have t4: "backward_calls (trace s') = backward_calls (trace s3)"
    "optimizer_steps (trace s') = optimizer_steps (trace s3)"
    using sv
    by (auto simp: save_step_def Let_def backward_calls_def optimizer_steps_def
          split: if_splits option.splits)
  show "backward_calls (trace s') = Suc (backward_calls (trace s))"
    by (simp add: t1 t2 t3 t4)
  show "optimizer_steps (trace s') = optimizer_steps (trace s)
           + (if (int step + 1) mod accumulation_steps (args s) = 0 then 1 else 0)"
    by (simp add: t1 t2 t3 t4)
qed

lemma enumerate_counts:
  assumes "0 < accumulation_steps (args s)"
    and "enumerate_loop g epoch 0 bs s = Inr s'"
  shows "backward_calls (trace s') = backward_calls (trace s) + length bs
       \<and> optimizer_steps (trace s') = optimizer_steps (trace s)
                                      + length bs div nat (accumulation_steps (args s))"
  using assms(2)
proof (induction bs arbitrary: s' rule: rev_induct)
  case Nil
  then show ?case by simp
next
  case (snoc b bs)
  from snoc.prems obtain s1 where
    s1: "enumerate_loop g epoch 0 bs s = Inr s1" and
    bd: "train_epoch_body g epoch (length bs) b s1 = Inr s'"
    by (auto simp: enumerate_loop_snoc then_do_Inr_iff)
  have acc: "accumulation_steps (args s1) = accumulation_steps (args s)"
    using enumerate_grads [OF assms(1) s1] by simp
  have bn: "((int (length bs) + 1) mod accumulation_steps (args s1) = 0)
              = (Suc (length bs) mod nat (accumulation_steps (args s)) = 0)"
    unfolding acc by (rule boundary_nat [OF assms(1)])
  from body_counts [OF bd, unfolded bn] snoc.IH [OF s1] show ?case
    by (simp add: div_Suc)
qed

lemma train_epoch_grads:
  assumes "0 < accumulation_steps (args s)" and "train_epoch g epoch s = Inr s'"
  shows "args s' = args s"
    and "pending s' = (if iter_per_epoch g < nat (accumulation_steps (args s)) then pending s else [])
                      @ micro_batches epoch
                          (iter_per_epoch g div nat (accumulation_steps (args s))
                             * nat (accumulation_steps (args s))) (iter_per_epoch g)"
    and "applied s' = applied s
                      @ epoch_updates (pending s) epoch (nat (accumulation_steps (args s)))
                          (iter_per_epoch g)"
  using enumerate_grads [OF assms(1) assms(2) [unfolded train_epoch_def]]
  by (simp_all add: iter_per_epoch_def)

lemma train_epoch_counts:
  assumes "0 < accumulation_steps (args s)" and "train_epoch g epoch s = Inr s'"
  shows "backward_calls (trace s') = backward_calls (trace s) + iter_per_epoch g"
    and "optimizer_steps (trace s') = optimizer_steps (trace s)
           + iter_per_epoch g div nat (accumulation_steps (args s))"
  using enumerate_counts [OF assms(1) assms(2) [unfolded train_epoch_def]]
  by (simp_all add: iter_per_epoch_def)

subsection \<open>The loop over the epochs\<close>

lemma epoch_loop_snoc:
  "epoch_loop g (es @ [e]) s = then_do (epoch_loop g es s) (train_epoch g e)"
proof (induction es arbitrary: s)
  case Nil
  show ?case by (cases "train_epoch g e s") simp_all
next
  case (Cons a es)
  show ?case by (cases "train_epoch g a s") (simp_all add: Cons.IH)
qed

lemma epoch_loop_completes:
  assumes "runnable g s"
  shows "\<exists>s'. epoch_loop g es s = Inr s' \<and> runnable g s'"
  using assms
proof (induction es arbitrary: s)
  case Nil
  then show ?case by simp
next
  case (Cons e es)
  from train_epoch_completes [OF Cons.prems, of e] obtain s1 where
    "train_epoch g e s = Inr s1" "runnable g s1" by blast
  with Cons.IH [of s1] show ?case by simp
qed

lemma epoch_loop_counts:
  assumes "0 < accumulation_steps (args s)" and "epoch_loop g es s = Inr s'"
  shows "args s' = args s
       \<and> backward_calls (trace s') = backward_calls (trace s) + length es * iter_per_epoch g
       \<and> optimizer_steps (trace s') = optimizer_steps (trace s)
           + length es * (iter_per_epoch g div nat (accumulation_steps (args s)))"
  using assms(2)
proof (induction es arbitrary: s' rule: rev_induct)
  case Nil
  then show ?case by simp
next
  case (snoc e es)
  from snoc.prems obtain s1 where
    s1: "epoch_loop g es s = Inr s1" and ep: "train_epoch g e s1 = Inr s'"
    by (auto simp: epoch_loop_snoc then_do_Inr_iff)
  note ih = snoc.IH [OF s1]
  have acc: "accumulation_steps (args s1) = accumulation_steps (args s)" using ih by simp
  have pos: "0 < accumulation_steps (args s1)" using assms(1) acc by simp
  from train_epoch_grads(1) [OF pos ep] train_epoch_counts [OF pos ep] ih acc
  show ?case by (simp add: algebra_simps)
qed

lemma train_all_counts:
  assumes "0 < accumulation_steps (args s)" and "train_all g s = Inr s'"
  shows "backward_calls (trace s') = backward_calls (trace s)
           + nat (epochs (args s)) * iter_per_epoch g"
    and "optimizer_steps (trace s') = optimizer_steps (trace s)
           + nat (epochs (args s)) * (iter_per_epoch g div nat (accumulation_steps (args s)))"
  using epoch_loop_counts [OF assms(1) assms(2) [unfolded train_all_def]] by simp_all

lemma train_all_completes:
  assumes "runnable g s"
  shows "\<exists>s'. train_all g s = Inr s' \<and> runnable g s'"
  unfolding train_all_def by (rule epoch_loop_completes [OF assms])

lemma main_demo:
  "main demo_env demo_fw demo_loader demo_args Map.empty = train_all demo_globals demo_world"
  by (simp add: main_def startup_def run_training_def boot_def demo_env_def demo_args_def
        demo_globals_def demo_world_def demo_fw_def LMConfig_def Logger_def emit_def
        str_int_def str_nat.simps Let_def)

lemma demo_facts:
  "iter_per_epoch demo_globals = 3" "accumulation_steps (args demo_world) = 2"
  "epochs (args demo_world) = 2" "pending demo_world = []" "applied demo_world = []"
  "optimizer_steps (trace demo_world) = 0" "backward_calls (trace demo_world) = 0"
  by (simp_all add: iter_per_epoch_def demo_globals_def demo_loader_def demo_world_def
        demo_args_def optimizer_steps_def backward_calls_def)

lemma demo_two_epochs:
  "\<exists>s1 s2. train_epoch demo_globals 0 demo_world = Inr s1
           \<and> train_epoch demo_globals 1 s1 = Inr s2
           \<and> train_all demo_globals demo_world = Inr s2"
proof -
  from train_epoch_completes [OF demo_runnable, of 0] obtain s1 where
    s1: "train_epoch demo_globals 0 demo_world = Inr s1" "runnable demo_globals s1" by blast
  from train_epoch_completes [OF s1(2), of 1] obtain s2 where
    s2: "train_epoch demo_globals 1 s1 = Inr s2" by blast
  have "[0..<nat 2] = [0, 1]" by code_simp
  then have "train_all demo_globals demo_world = Inr s2"
    using s1(1) s2 by (simp add: train_all_def demo_facts)
  with s1(1) s2 show ?thesis by blast
qed

lemma demo_updates:
  "applied (final (main demo_env demo_fw demo_loader demo_args Map.empty))
     = [[(0, 0), (0, 1)], [(0, 2), (1, 0), (1, 1)]]"
  "pending (final (main demo_env demo_fw demo_loader demo_args Map.empty)) = [(1, 2)]"
proof -
  from demo_two_epochs obtain s1 s2 where
    s1: "train_epoch demo_globals 0 demo_world = Inr s1" and
    s2: "train_epoch demo_globals 1 s1 = Inr s2" and
    al: "train_all demo_globals demo_world = Inr s2" by blast
  have p0: "0 < accumulation_steps (args demo_world)" by (simp add: demo_facts)
  note g1 = train_epoch_grads [OF p0 s1, unfolded demo_facts]
  have e1: "epoch_updates [] 0 (nat 2) 3 = [[(0, 0), (0, 1)]]" by code_simp
  have m1: "(if (3::nat) < nat 2 then [] else []) @ micro_batches 0 (3 div nat 2 * nat 2) 3
              = [(0, 2)]" by code_simp
  have a1: "applied s1 = [[(0, 0), (0, 1)]]" and q1: "pending s1 = [(0, 2)]"
    and r1: "accumulation_steps (args s1) = 2"
    using g1 e1 m1 by (simp_all add: demo_facts)
  have p1: "0 < accumulation_steps (args s1)" by (simp add: r1)
  note g2 = train_epoch_grads [OF p1 s2, unfolded demo_facts r1 a1 q1]
  have e2: "epoch_updates [(0, 2)] 1 (nat 2) 3 = [[(0, 2), (1, 0), (1, 1)]]" by code_simp
  have m2: "(if (3::nat) < nat 2 then [(0, 2)] else []) @ micro_batches 1 (3 div nat 2 * nat 2) 3
              = [(1, 2)]" by code_simp
  show "applied (final (main demo_env demo_fw demo_loader demo_args Map.empty))
     = [[(0, 0), (0, 1)], [(0, 2), (1, 0), (1, 1)]]"
    using g2(3) e2 by (simp add: main_demo al)
  show "pending (final (main demo_env demo_fw demo_loader demo_args Map.empty)) = [(1, 2)]"
    using g2(2) m2 by (simp add: main_demo al)
qed

text \<open>
  C1 (as the code has it). The test \<^verbatim>\<open>(step + 1) % accumulation_steps == 0\<close> counts
  the micro-steps of the current epoch. A completed epoch of \<open>n\<close> micro-steps makes
  \<open>n\<close> backward calls and \<open>n div accumulation_steps\<close> optimizer updates, each of
  them on a micro-step whose position in the epoch is a multiple of
  \<^verbatim>\<open>accumulation_steps\<close>: the first applies what the buffers held at the start of the
  epoch and the first \<^verbatim>\<open>accumulation_steps\<close> micro-batches, every later one exactly the
  next \<^verbatim>\<open>accumulation_steps\<close> micro-batches. A completed run of \<open>E\<close> epochs
  therefore makes \<open>E * n\<close> backward calls and \<open>E * (n div accumulation_steps)\<close>
  updates.
\<close>

theorem updates_within_epoch:
  assumes "0 < accumulation_steps (args s)"
  shows "(train_epoch g epoch s = Inr s' \<longrightarrow>
            backward_calls (trace s') = backward_calls (trace s) + iter_per_epoch g
          \<and> optimizer_steps (trace s') = optimizer_steps (trace s)
              + iter_per_epoch g div nat (accumulation_steps (args s))
          \<and> applied s' = applied s
              @ epoch_updates (pending s) epoch (nat (accumulation_steps (args s)))
                  (iter_per_epoch g))
       \<and> (train_all g s = Inr s'' \<longrightarrow>
            backward_calls (trace s'') = backward_calls (trace s)
              + nat (epochs (args s)) * iter_per_epoch g
          \<and> optimizer_steps (trace s'') = optimizer_steps (trace s)
              + nat (epochs (args s))
                * (iter_per_epoch g div nat (accumulation_steps (args s))))"
  using train_epoch_counts [OF assms] train_epoch_grads(3) [OF assms]
    train_all_counts [OF assms] by blast

theorem updates_within_epoch_witness:
  "0 < accumulation_steps (args demo_world)
   \<and> (\<exists>s'. train_epoch demo_globals 0 demo_world = Inr s'
          \<and> backward_calls (trace s') = 3 \<and> optimizer_steps (trace s') = 1
          \<and> applied s' = [[(0, 0), (0, 1)]])
   \<and> (\<exists>s''. train_all demo_globals demo_world = Inr s''
          \<and> backward_calls (trace s'') = 6 \<and> optimizer_steps (trace s'') = 2)"
proof -
  from demo_two_epochs obtain s1 s2 where
    s1: "train_epoch demo_globals 0 demo_world = Inr s1" and
    al: "train_all demo_globals demo_world = Inr s2" by blast
  have p0: "0 < accumulation_steps (args demo_world)" by (simp add: demo_facts)
  have e1: "epoch_updates [] 0 (nat 2) 3 = [[(0, 0), (0, 1)]]" by code_simp
  from updates_within_epoch [OF p0, of demo_globals 0 s1 s2] s1 al e1
  have "backward_calls (trace s1) = 3 \<and> optimizer_steps (trace s1) = 1
        \<and> applied s1 = [[(0, 0), (0, 1)]]
        \<and> backward_calls (trace s2) = 6 \<and> optimizer_steps (trace s2) = 2"
    by (simp add: demo_facts)
  with s1 al p0 show ?thesis by blast
qed

theorem six_micro_steps_two_updates:
  "accumulation_steps demo_args = 2
   \<and> backward_calls (trace (final (main demo_env demo_fw demo_loader demo_args Map.empty))) = 6
   \<and> optimizer_steps (trace (final (main demo_env demo_fw demo_loader demo_args Map.empty))) = 2
   \<and> map length (applied (final (main demo_env demo_fw demo_loader demo_args Map.empty)))
       = [2, 3]"
proof -
  from demo_two_epochs obtain s2 where
    al: "train_all demo_globals demo_world = Inr s2" by blast
  have p0: "0 < accumulation_steps (args demo_world)" by (simp add: demo_facts)
  from train_all_counts [OF p0 al]
  have "backward_calls (trace s2) = 6" "optimizer_steps (trace s2) = 2"
    by (simp_all add: demo_facts)
  moreover have "accumulation_steps demo_args = 2" by (simp add: demo_args_def)
  moreover have "final (main demo_env demo_fw demo_loader demo_args Map.empty) = s2"
    by (simp add: main_demo al)
  moreover have "map length (applied (final (main demo_env demo_fw demo_loader demo_args
                   Map.empty))) = [2, 3]"
    by (simp add: demo_updates)
  ultimately show ?thesis by simp
qed

subsection \<open>Gradients left in the buffers at the end of an epoch\<close>







subsection \<open>The framework calls of one micro-step\<close>

lemma log_step_trace:
  assumes "log_step g epoch step loss s = Inr s'"
  shows "trace s' = trace s
           @ (if int step mod log_interval (args s) = 0 then
                (if designated g then
                   [Print (TrainLog (epoch + 1) (epochs (args s)) step (iter_per_epoch g)
                      (map_option (\<lambda>l. l * of_int (accumulation_steps (args s))) loss)
                      (last (lrs s))
                      (epoch_time (log_time (fw g) epoch step - epoch_start_time (fw g) epoch)
                         step (iter_per_epoch g)))]
                 else [])
                @ (if wandb g \<and> designated g then
                     [WandbLog (map_option (\<lambda>l. l * of_int (accumulation_steps (args s))) loss)
                        (last (lrs s))
                        (epoch_time (log_time (fw g) epoch step - epoch_start_time (fw g) epoch)
                           step (iter_per_epoch g))]
                   else [])
              else [])"
    and "int step mod log_interval (args s) = 0 \<Longrightarrow> lrs s \<noteq> []"
  using assms by (auto simp: log_step_def Let_def designated_def split: if_splits)

lemma save_step_trace:
  assumes "save_step g step s = Inr s'"
  shows "if (int step + 1) mod save_interval (args s) = 0 \<and> designated g
         then \<exists>dir. save_dir (args s) = Some dir
                \<and> trace s' = trace s
                    @ [ModelEval, TorchSave (ckp_path dir (lm_config g)) (applied s), ModelTrain]
                \<and> files s' = (files s)(ckp_path dir (lm_config g) \<mapsto> applied s)
                \<and> training s'
         else s' = s"
  using assms
  by (auto simp: save_step_def Let_def designated_def split: if_splits option.splits)

lemma body_trace:
  assumes "train_epoch_body g epoch step b s = Inr s'"
  shows "\<exists>lr loss us ls cs.
           get_lr (int epoch * int (iter_per_epoch g) + int step)
             (epochs (args s) * int (iter_per_epoch g)) (learning_rate (args s)) = Inr lr
         \<and> micro_loss (fw g) (applied s) (accumulation_steps (args s)) b = Inr loss
         \<and> trace s' = trace s @ [SetLR lr, Forward (fst b), Backward loss] @ us @ ls @ cs
         \<and> us = (if (int step + 1) mod accumulation_steps (args s) = 0
                 then [Unscale, ClipGradNorm (grad_clip (args s)), OptimizerStep, ScalerUpdate,
                       ZeroGrad]
                 else [])
         \<and> ls = (if int step mod log_interval (args s) = 0 then
                   (if designated g then
                      [Print (TrainLog (epoch + 1) (epochs (args s)) step (iter_per_epoch g)
                         (map_option (\<lambda>l. l * of_int (accumulation_steps (args s))) loss) lr
                         (epoch_time (log_time (fw g) epoch step - epoch_start_time (fw g) epoch)
                            step (iter_per_epoch g)))]
                    else [])
                   @ (if wandb g \<and> designated g then
                        [WandbLog (map_option (\<lambda>l. l * of_int (accumulation_steps (args s))) loss)
                           lr
                           (epoch_time (log_time (fw g) epoch step - epoch_start_time (fw g) epoch)
                              step (iter_per_epoch g))]
                      else [])
                 else [])
         \<and> (if (int step + 1) mod save_interval (args s) = 0 \<and> designated g
            then \<exists>dir. save_dir (args s) = Some dir
                   \<and> cs = [ModelEval, TorchSave (ckp_path dir (lm_config g)) (applied s'),
                           ModelTrain]
                   \<and> files s' = (files s)(ckp_path dir (lm_config g) \<mapsto> applied s')
                   \<and> training s'
            else cs = [] \<and> files s' = files s \<and> training s' = training s)"
proof -
  obtain loss s1 s2 s3 where
    fb: "forward_backward g epoch step b s = Inr (loss, s1)" and
    ab: "accumulation_boundary step s1 = Inr s2" and
    lg: "log_step g epoch step loss s2 = Inr s3" and
    sv: "save_step g step s3 = Inr s'"
    using assms by (rule body_Inr)
  from forward_backward_Inr [OF fb] obtain lr where
    lr: "get_lr (int epoch * int (iter_per_epoch g) + int step)
           (epochs (args s) * int (iter_per_epoch g)) (learning_rate (args s)) = Inr lr" and
    ml: "micro_loss (fw g) (applied s) (accumulation_steps (args s)) b = Inr loss" and
    s1: "s1 = backward (epoch, step) loss (emit (Forward (fst b)) (set_lr lr s))" by blast
  have f1: "args s1 = args s" "lrs s1 = map (\<lambda>_. lr) (lrs s)" "files s1 = files s"
    "training s1 = training s"
    "trace s1 = trace s @ [SetLR lr, Forward (fst b), Backward loss]"
    by (simp_all add: s1)
  define us where "us = (if (int step + 1) mod accumulation_steps (args s) = 0
                 then [Unscale, ClipGradNorm (grad_clip (args s)), OptimizerStep, ScalerUpdate,
                       ZeroGrad]
                 else [])"
  have f2: "args s2 = args s" "lrs s2 = map (\<lambda>_. lr) (lrs s)" "files s2 = files s"
    "training s2 = training s" "trace s2 = trace s1 @ us"
    using accumulation_boundary_Inr(2) [OF ab] f1 by (simp_all add: us_def)
  note l3 = log_step_Inr [OF lg]
  have lne: "int step mod log_interval (args s) = 0 \<Longrightarrow> last (lrs s2) = lr"
    using log_step_trace(2) [OF lg] f2 by (simp add: last_map)
  define ls where "ls = (if int step mod log_interval (args s) = 0 then
                   (if designated g then
                      [Print (TrainLog (epoch + 1) (epochs (args s)) step (iter_per_epoch g)
                         (map_option (\<lambda>l. l * of_int (accumulation_steps (args s))) loss) lr
                         (epoch_time (log_time (fw g) epoch step - epoch_start_time (fw g) epoch)
                            step (iter_per_epoch g)))]
                    else [])
                   @ (if wandb g \<and> designated g then
                        [WandbLog (map_option (\<lambda>l. l * of_int (accumulation_steps (args s))) loss)
                           lr
                           (epoch_time (log_time (fw g) epoch step - epoch_start_time (fw g) epoch)
                              step (iter_per_epoch g))]
                      else [])
                 else [])"
  have f3: "args s3 = args s" "files s3 = files s" "training s3 = training s"
    "trace s3 = trace s2 @ ls"
    using l3 f2 log_step_trace(1) [OF lg] lne by (simp_all add: ls_def)
  define cs where "cs = drop (length (trace s3)) (trace s')"
  have a4: "applied s' = applied s3" using save_step_Inr(5) [OF sv] .
  have f4: "trace s' = trace s3 @ cs"
    "if (int step + 1) mod save_interval (args s) = 0 \<and> designated g
            then \<exists>dir. save_dir (args s) = Some dir
                   \<and> cs = [ModelEval, TorchSave (ckp_path dir (lm_config g)) (applied s'),
                           ModelTrain]
                   \<and> files s' = (files s)(ckp_path dir (lm_config g) \<mapsto> applied s')
                   \<and> training s'
            else cs = [] \<and> files s' = files s \<and> training s' = training s"
    using save_step_trace [OF sv] f3 a4 by (auto simp: cs_def split: if_splits)
  have "trace s' = trace s @ [SetLR lr, Forward (fst b), Backward loss] @ us @ ls @ cs"
    using f1 f2 f3 f4(1) by simp
  with lr ml f4(2) us_def ls_def show ?thesis by blast
qed

lemma new_events_append [simp]: "trace s' = trace s @ es \<Longrightarrow> new_events s s' = es"
  by (simp add: new_events_def)

lemma printed_append [simp]: "printed (xs @ ys) = printed xs @ printed ys"
  by (induction xs rule: printed.induct) simp_all

lemma saved_append [simp]: "saved (xs @ ys) = saved xs @ saved ys"
  by (induction xs rule: saved.induct) simp_all

text \<open>
  C3. On a micro-step whose position is a multiple of \<^verbatim>\<open>accumulation_steps\<close> the
  calls of the micro-step are the learning rate, the forward and the backward pass and
  then, with nothing in between, \<^verbatim>\<open>unscale_\<close>, \<^verbatim>\<open>clip_grad_norm_\<close> with the bound
  \<^verbatim>\<open>grad_clip\<close>, \<^verbatim>\<open>scaler.step\<close>, \<^verbatim>\<open>scaler.update\<close> and \<^verbatim>\<open>zero_grad\<close>, in this
  order; what follows in the micro-step is no call of the update and no forward or
  backward pass, and the buffers are empty at its end. On any other micro-step none of
  the five calls is made and the micro-batch is added to the buffers.
\<close>

theorem update_calls_in_order:
  assumes "train_epoch_body g epoch step b s = Inr s'"
  shows "if (int step + 1) mod accumulation_steps (args s) = 0
         then (\<exists>lr loss rest.
                 new_events s s' =
                   [SetLR lr, Forward (fst b), Backward loss,
                    Unscale, ClipGradNorm (grad_clip (args s)), OptimizerStep, ScalerUpdate,
                    ZeroGrad] @ rest
               \<and> (\<forall>ev \<in> set rest. \<not> update_call ev \<and> (\<forall>l. ev \<noteq> Backward l)
                                     \<and> (\<forall>X. ev \<noteq> Forward X)))
              \<and> pending s' = []
              \<and> applied s' = applied s @ [pending s @ [(epoch, step)]]
         else (\<forall>ev \<in> set (new_events s s'). \<not> update_call ev)
              \<and> pending s' = pending s @ [(epoch, step)]
              \<and> applied s' = applied s"
proof -
  from body_trace [OF assms] obtain lr loss us ls cs where
    tr: "trace s' = trace s @ [SetLR lr, Forward (fst b), Backward loss] @ us @ ls @ cs" and
    us: "us = (if (int step + 1) mod accumulation_steps (args s) = 0
                 then [Unscale, ClipGradNorm (grad_clip (args s)), OptimizerStep, ScalerUpdate,
                       ZeroGrad]
                 else [])" and
    ls': "ls = (if int step mod log_interval (args s) = 0 then
                   (if designated g then
                      [Print (TrainLog (epoch + 1) (epochs (args s)) step (iter_per_epoch g)
                         (map_option (\<lambda>l. l * of_int (accumulation_steps (args s))) loss) lr
                         (epoch_time (log_time (fw g) epoch step - epoch_start_time (fw g) epoch)
                            step (iter_per_epoch g)))]
                    else [])
                   @ (if wandb g \<and> designated g then
                        [WandbLog (map_option (\<lambda>l. l * of_int (accumulation_steps (args s))) loss)
                           lr
                           (epoch_time (log_time (fw g) epoch step - epoch_start_time (fw g) epoch)
                              step (iter_per_epoch g))]
                      else [])
                 else [])" and
    cs': "if (int step + 1) mod save_interval (args s) = 0 \<and> designated g
            then \<exists>dir. save_dir (args s) = Some dir
                   \<and> cs = [ModelEval, TorchSave (ckp_path dir (lm_config g)) (applied s'),
                           ModelTrain]
                   \<and> files s' = (files s)(ckp_path dir (lm_config g) \<mapsto> applied s')
                   \<and> training s'
            else cs = [] \<and> files s' = files s \<and> training s' = training s"
    by blast
  have ls: "\<forall>ev \<in> set ls. (\<exists>c. ev = Print c) \<or> (\<exists>x y z. ev = WandbLog x y z)"
    unfolding ls' by auto
  have cs: "\<forall>ev \<in> set cs. ev = ModelEval \<or> (\<exists>p v. ev = TorchSave p v) \<or> ev = ModelTrain"
    using cs' by (auto split: if_splits)
  have rest: "\<forall>ev \<in> set (ls @ cs). \<not> update_call ev \<and> (\<forall>l. ev \<noteq> Backward l)
                                     \<and> (\<forall>X. ev \<noteq> Forward X)"
    using ls cs by auto
  note gr = body_grads(3,4) [OF assms]
  show ?thesis
  proof (cases "(int step + 1) mod accumulation_steps (args s) = 0")
    case True
    have "new_events s s' =
            [SetLR lr, Forward (fst b), Backward loss,
             Unscale, ClipGradNorm (grad_clip (args s)), OptimizerStep, ScalerUpdate, ZeroGrad]
            @ (ls @ cs)"
      using tr us True by simp
    with rest gr True show ?thesis by (simp del: set_append)
  next
    case False
    have "new_events s s' = [SetLR lr, Forward (fst b), Backward loss] @ (ls @ cs)"
      using tr us False by simp
    with rest gr False show ?thesis by auto
  qed
qed

theorem update_calls_in_order_witness:
  "\<exists>s' lr loss.
      train_epoch_body demo_globals 0 1 (demo_loader ! 1) demo_world = Inr s'
    \<and> (int 1 + 1) mod accumulation_steps (args demo_world) = 0
    \<and> take 8 (new_events demo_world s') =
        [SetLR lr, Forward [4, 5], Backward loss,
         Unscale, ClipGradNorm 1, OptimizerStep, ScalerUpdate, ZeroGrad]
    \<and> pending s' = [] \<and> applied s' = [[(0, 1)]]"
proof -
  have "demo_loader ! 1 \<in> set (train_loader demo_globals)"
    by (simp add: demo_globals_def demo_loader_def)
  from body_completes [OF demo_runnable this, of 0 1] obtain s' where
    s': "train_epoch_body demo_globals 0 1 (demo_loader ! 1) demo_world = Inr s'" by blast
  have c: "(int 1 + 1) mod accumulation_steps (args demo_world) = 0"
    by (simp add: demo_facts)
  have v: "fst (demo_loader ! 1) = [4, 5]" "grad_clip (args demo_world) = 1"
    by (simp_all add: demo_loader_def demo_world_def demo_args_def)
  from update_calls_in_order [OF s'] c v
  show ?thesis using s' by (auto simp: demo_facts)
qed

subsection \<open>The checkpoint path determines the width and the mixture-of-experts flag\<close>

lemma digit_inj:
  assumes "i < 10" and "j < 10" and "''0123456789'' ! i = ''0123456789'' ! j"
  shows "i = j"
proof -
  have d: "distinct ''0123456789''" by simp
  have l: "length ''0123456789'' = 10" by simp
  from assms d l show ?thesis by (metis nth_eq_iff_index_eq)
qed

lemma str_nat_nonempty [simp]: "str_nat n \<noteq> []"
  by (subst str_nat.simps) simp

lemma str_nat_last: "last (str_nat n) = ''0123456789'' ! (n mod 10)"
  by (subst str_nat.simps) simp

lemma str_nat_butlast: "butlast (str_nat n) = (if n < 10 then [] else str_nat (n div 10))"
  by (subst str_nat.simps) (simp add: butlast_append)

lemma str_nat_inj: "str_nat n = str_nat m \<Longrightarrow> n = m"
proof (induction n arbitrary: m rule: str_nat.induct)
  case (1 n)
  from "1.prems" have "last (str_nat n) = last (str_nat m)" by simp
  then have "''0123456789'' ! (n mod 10) = ''0123456789'' ! (m mod 10)"
    by (simp add: str_nat_last)
  then have md: "n mod 10 = m mod 10" by (intro digit_inj) simp_all
  from "1.prems" have "butlast (str_nat n) = butlast (str_nat m)" by simp
  then have bl: "(if n < 10 then [] else str_nat (n div 10))
                   = (if m < 10 then [] else str_nat (m div 10))"
    by (simp only: str_nat_butlast)
  show ?case
  proof (cases "n < 10")
    case True
    with bl str_nat_nonempty [of "m div 10"] have "m < 10"
      by (cases "m < 10") (simp_all add: eq_commute [of "[]"])
    with True md show ?thesis by simp
  next
    case False
    with bl str_nat_nonempty [of "n div 10"]
    have m: "\<not> m < 10" and "str_nat (n div 10) = str_nat (m div 10)"
      by (cases "m < 10"; simp)+
    with "1.IH" False have "n div 10 = m div 10" by simp
    with md show ?thesis by (metis div_mult_mod_eq)
  qed
qed

lemma str_nat_digits: "set (str_nat n) \<subseteq> set ''0123456789''"
proof (induction n rule: str_nat.induct)
  case (1 n)
  have d: "''0123456789'' ! k \<in> set ''0123456789''" if "k < 10" for k
    using that by (intro nth_mem) simp
  show ?case
  proof (cases "n < 10")
    case True
    with d [of n] show ?thesis by (subst str_nat.simps) simp
  next
    case False
    have "n mod 10 < 10" by simp
    from d [OF this] "1.IH" False show ?thesis by (subst str_nat.simps) simp
  qed
qed

lemma str_int_inj: "str_int i = str_int j \<Longrightarrow> i = j"
proof -
  assume e: "str_int i = str_int j"
  have nd: "CHR ''-'' \<notin> set (str_nat k)" for k using str_nat_digits [of k] by auto
  have hd: "hd (str_nat k) \<noteq> CHR ''-''" for k
    using nd [of k] str_nat_nonempty [of k] by (metis hd_in_set)
  show ?thesis
  proof (cases "i < 0")
    case True
    show ?thesis
    proof (cases "j < 0")
      case j: True
      with True e have "str_nat (nat (- i)) = str_nat (nat (- j))" by (simp add: str_int_def)
      then have "nat (- i) = nat (- j)" by (rule str_nat_inj)
      with True j show ?thesis by simp
    next
      case False
      with True e have "CHR ''-'' # str_nat (nat (- i)) = str_nat (nat j)"
        by (simp add: str_int_def)
      then have "hd (str_nat (nat j)) = CHR ''-''" by (metis list.sel(1))
      with hd show ?thesis by simp
    qed
  next
    case False
    show ?thesis
    proof (cases "j < 0")
      case True
      with False e have "str_nat (nat i) = CHR ''-'' # str_nat (nat (- j))"
        by (simp add: str_int_def)
      then have "hd (str_nat (nat i)) = CHR ''-''" by simp
      with hd show ?thesis by simp
    next
      case j: False
      with False e have "str_nat (nat i) = str_nat (nat j)" by (simp add: str_int_def)
      then have "nat i = nat j" by (rule str_nat_inj)
      with False j show ?thesis by simp
    qed
  qed
qed

lemma str_int_no_underscore: "str_int i \<noteq> [] \<and> last (str_int i) \<noteq> CHR ''e''"
proof -
  have "last (str_nat k) \<noteq> CHR ''e''" for k
  proof -
    have "last (str_nat k) \<in> set ''0123456789''"
      using str_nat_digits [of k] str_nat_nonempty [of k] last_in_set by blast
    then show ?thesis by auto
  qed
  then show ?thesis by (simp add: str_int_def)
qed

lemma ckp_path_inj:
  assumes "ckp_path dir c = ckp_path dir c'"
  shows "cfg_dim c = cfg_dim c' \<and> cfg_use_moe c = cfg_use_moe c'"
proof -
  from assms have e: "str_int (cfg_dim c) @ (if cfg_use_moe c then ''_moe'' else [])
                        = str_int (cfg_dim c') @ (if cfg_use_moe c' then ''_moe'' else [])"
    by (simp add: ckp_path_def)
  have no: "str_int a \<noteq> str_int b @ ''_moe''" for a b
  proof
    assume "str_int a = str_int b @ ''_moe''"
    then have "last (str_int a) = CHR ''e''" by simp
    with str_int_no_underscore [of a] show False by simp
  qed
  show ?thesis
  proof (cases "cfg_use_moe c = cfg_use_moe c'")
    case True
    with e have "str_int (cfg_dim c) = str_int (cfg_dim c')" by (simp split: if_splits)
    then have "cfg_dim c = cfg_dim c'" by (rule str_int_inj)
    with True show ?thesis by simp
  next
    case False
    with e no [of "cfg_dim c" "cfg_dim c'"] no [of "cfg_dim c'" "cfg_dim c"]
    show ?thesis by (auto split: if_splits)
  qed
qed

subsection \<open>Checkpoints\<close>

lemma body_saved:
  assumes "train_epoch_body g epoch step b s = Inr s'"
  shows "if (int step + 1) mod save_interval (args s) = 0 \<and> designated g
         then \<exists>dir pre. save_dir (args s) = Some dir
                \<and> new_events s s' =
                    pre @ [ModelEval, TorchSave (ckp_path dir (lm_config g)) (applied s'),
                           ModelTrain]
                \<and> saved pre = []
                \<and> files s' = (files s)(ckp_path dir (lm_config g) \<mapsto> applied s')
                \<and> training s'
         else saved (new_events s s') = [] \<and> files s' = files s"
proof -
  from body_trace [OF assms] obtain lr loss us ls cs where
    tr: "trace s' = trace s @ [SetLR lr, Forward (fst b), Backward loss] @ us @ ls @ cs" and
    us: "us = (if (int step + 1) mod accumulation_steps (args s) = 0
                 then [Unscale, ClipGradNorm (grad_clip (args s)), OptimizerStep, ScalerUpdate,
                       ZeroGrad]
                 else [])" and
    ls: "ls = (if int step mod log_interval (args s) = 0 then
                   (if designated g then
                      [Print (TrainLog (epoch + 1) (epochs (args s)) step (iter_per_epoch g)
                         (map_option (\<lambda>l. l * of_int (accumulation_steps (args s))) loss) lr
                         (epoch_time (log_time (fw g) epoch step - epoch_start_time (fw g) epoch)
                            step (iter_per_epoch g)))]
                    else [])
                   @ (if wandb g \<and> designated g then
                        [WandbLog (map_option (\<lambda>l. l * of_int (accumulation_steps (args s))) loss)
                           lr
                           (epoch_time (log_time (fw g) epoch step - epoch_start_time (fw g) epoch)
                              step (iter_per_epoch g))]
                      else [])
                 else [])" and
    cs: "if (int step + 1) mod save_interval (args s) = 0 \<and> designated g
            then \<exists>dir. save_dir (args s) = Some dir
                   \<and> cs = [ModelEval, TorchSave (ckp_path dir (lm_config g)) (applied s'),
                           ModelTrain]
                   \<and> files s' = (files s)(ckp_path dir (lm_config g) \<mapsto> applied s')
                   \<and> training s'
            else cs = [] \<and> files s' = files s \<and> training s' = training s"
    by blast
  define pre where "pre = [SetLR lr, Forward (fst b), Backward loss] @ us @ ls"
  have ne: "new_events s s' = pre @ cs" using tr by (simp add: pre_def)
  have "saved us = []" unfolding us by simp
  moreover have "saved ls = []" unfolding ls by simp
  ultimately have sp: "saved pre = []" by (simp add: pre_def)
  show ?thesis
  proof (cases "(int step + 1) mod save_interval (args s) = 0 \<and> designated g")
    case True
    with cs ne sp show ?thesis by auto
  next
    case False
    with cs ne sp show ?thesis by auto
  qed
qed

text \<open>
  C5. A micro-step writes a checkpoint if and only if \<open>step + 1\<close> is a multiple of
  \<^verbatim>\<open>save_interval\<close> and the process is not distributed or has rank zero. When it
  does, the last calls of the micro-step are \<^verbatim>\<open>model.eval()\<close>, \<^verbatim>\<open>torch.save\<close> of
  the parameters to \<^verbatim>\<open>{save_dir}/pretrain_{dim}{_moe}.pth\<close>, and \<^verbatim>\<open>model.train()\<close>,
  in this order, the file then holds the parameters, and the model is in training mode;
  it is the only write of the micro-step. Of two distributed processes with different
  ranks at most one writes in a given micro-step. For a given directory the path
  determines \<^verbatim>\<open>dim\<close> and the mixture-of-experts flag.
\<close>

theorem checkpoint_write:
  assumes "train_epoch_body g epoch step b s = Inr s'"
  shows "(saved (new_events s s') \<noteq> []
            \<longleftrightarrow> (int step + 1) mod save_interval (args s) = 0 \<and> (\<not> ddp g \<or> rank g = 0))
       \<and> ((int step + 1) mod save_interval (args s) = 0 \<and> (\<not> ddp g \<or> rank g = 0) \<longrightarrow>
            (\<exists>dir pre ckp.
                save_dir (args s) = Some dir
              \<and> ckp = dir @ ''/pretrain_'' @ str_int (cfg_dim (lm_config g))
                        @ (if cfg_use_moe (lm_config g) then ''_moe'' else []) @ ''.pth''
              \<and> new_events s s' = pre @ [ModelEval, TorchSave ckp (applied s'), ModelTrain]
              \<and> saved pre = []
              \<and> files s' = (files s)(ckp \<mapsto> applied s')
              \<and> training s'))
       \<and> (ddp g \<and> ddp g2 \<and> rank g2 \<noteq> rank g
            \<and> train_epoch_body g2 epoch step b2 t = Inr t'
            \<and> saved (new_events s s') \<noteq> []
          \<longrightarrow> saved (new_events t t') = [])
       \<and> (ckp_path dir0 c1 = ckp_path dir0 c2
          \<longrightarrow> cfg_dim c1 = cfg_dim c2 \<and> cfg_use_moe c1 = cfg_use_moe c2)"
proof -
  note one = body_saved [OF assms]
  have iff: "saved (new_events s s') \<noteq> []
            \<longleftrightarrow> (int step + 1) mod save_interval (args s) = 0 \<and> (\<not> ddp g \<or> rank g = 0)"
    using one by (auto simp: designated_def split: if_splits)
  have wr: "\<exists>dir pre ckp.
                save_dir (args s) = Some dir
              \<and> ckp = dir @ ''/pretrain_'' @ str_int (cfg_dim (lm_config g))
                        @ (if cfg_use_moe (lm_config g) then ''_moe'' else []) @ ''.pth''
              \<and> new_events s s' = pre @ [ModelEval, TorchSave ckp (applied s'), ModelTrain]
              \<and> saved pre = []
              \<and> files s' = (files s)(ckp \<mapsto> applied s')
              \<and> training s'"
    if "(int step + 1) mod save_interval (args s) = 0 \<and> (\<not> ddp g \<or> rank g = 0)"
  proof -
    from that one obtain dir pre where
      "save_dir (args s) = Some dir"
      "new_events s s' =
         pre @ [ModelEval, TorchSave (ckp_path dir (lm_config g)) (applied s'), ModelTrain]"
      "saved pre = []"
      "files s' = (files s)(ckp_path dir (lm_config g) \<mapsto> applied s')"
      "training s'"
      by (auto simp: designated_def)
    then show ?thesis unfolding ckp_path_def by blast
  qed
  have other: "saved (new_events t t') = []"
    if "ddp g" "ddp g2" "rank g2 \<noteq> rank g" "train_epoch_body g2 epoch step b2 t = Inr t'"
      "saved (new_events s s') \<noteq> []"
  proof -
    from iff that(1,5) have "rank g = 0" by simp
    with that(2,3) have "\<not> designated g2" by (simp add: designated_def)
    with body_saved [OF that(4)] show ?thesis by simp
  qed
  have enc: "ckp_path dir0 c1 = ckp_path dir0 c2
          \<longrightarrow> cfg_dim c1 = cfg_dim c2 \<and> cfg_use_moe c1 = cfg_use_moe c2"
    using ckp_path_inj by blast
  from iff wr other enc show ?thesis by blast
qed

lemma demo_ranks_runnable: "runnable demo_rank0 demo_world" "runnable demo_rank1 demo_world"
  using demo_runnable by (simp_all add: runnable_def demo_rank0_def demo_rank1_def)

theorem checkpoint_write_witness:
  "\<exists>s' t' pre.
      train_epoch_body demo_rank0 0 1 (demo_loader ! 1) demo_world = Inr s'
    \<and> train_epoch_body demo_rank1 0 1 (demo_loader ! 1) demo_world = Inr t'
    \<and> (int 1 + 1) mod save_interval (args demo_world) = 0
    \<and> ddp demo_rank0 \<and> rank demo_rank0 = 0 \<and> ddp demo_rank1 \<and> rank demo_rank1 \<noteq> rank demo_rank0
    \<and> new_events demo_world s' =
        pre @ [ModelEval, TorchSave ''out/pretrain_512.pth'' [[(0, 1)]], ModelTrain]
    \<and> files s' ''out/pretrain_512.pth'' = Some [[(0, 1)]]
    \<and> training s'
    \<and> saved (new_events demo_world s') \<noteq> []
    \<and> saved (new_events demo_world t') = []
    \<and> ckp_path ''out'' (LMConfig 512 8 512 True)
        \<noteq> ckp_path ''out'' (LMConfig 512 8 512 False)"
proof -
  have m: "demo_loader ! 1 \<in> set (train_loader demo_rank0)"
    "demo_loader ! 1 \<in> set (train_loader demo_rank1)"
    by (simp_all add: demo_rank0_def demo_rank1_def demo_globals_def demo_loader_def)
  from body_completes [OF demo_ranks_runnable(1) m(1), of 0 1] obtain s' where
    s': "train_epoch_body demo_rank0 0 1 (demo_loader ! 1) demo_world = Inr s'" by blast
  from body_completes [OF demo_ranks_runnable(2) m(2), of 0 1] obtain t' where
    t': "train_epoch_body demo_rank1 0 1 (demo_loader ! 1) demo_world = Inr t'" by blast
  have c: "(int 1 + 1) mod save_interval (args demo_world) = 0"
    "(int 1 + 1) mod accumulation_steps (args demo_world) = 0"
    "ddp demo_rank0" "rank demo_rank0 = 0" "ddp demo_rank1" "rank demo_rank1 \<noteq> rank demo_rank0"
    "save_dir (args demo_world) = Some ''out''"
    "cfg_dim (lm_config demo_rank0) = 512" "\<not> cfg_use_moe (lm_config demo_rank0)"
    by (simp_all add: demo_world_def demo_args_def demo_rank0_def demo_rank1_def
          demo_globals_def LMConfig_def)
  have d: "str_int 512 = ''512''" by (simp add: str_int_def str_nat.simps)
  have a: "applied s' = [[(0, 1)]]"
    using body_grads(4) [OF s'] c(2) by (simp add: demo_facts)
  note w = checkpoint_write [OF s', where ?g2.0 = demo_rank1 and ?b2.0 = "demo_loader ! 1"
      and t = demo_world and t' = t' and ?dir0.0 = "''out''"
      and ?c1.0 = "LMConfig 512 8 512 True" and ?c2.0 = "LMConfig 512 8 512 False"]
  have e: "ckp_path ''out'' (LMConfig 512 8 512 True)
        \<noteq> ckp_path ''out'' (LMConfig 512 8 512 False)"
    using w by (auto simp: LMConfig_def)
  from w t' c d a
  obtain pre where
    "new_events demo_world s' =
        pre @ [ModelEval, TorchSave ''out/pretrain_512.pth'' [[(0, 1)]], ModelTrain]"
    "files s' ''out/pretrain_512.pth'' = Some [[(0, 1)]]" "training s'"
    "saved (new_events demo_world s') \<noteq> []" "saved (new_events demo_world t') = []"
    by auto
  with s' t' c e show ?thesis
    by (intro exI [of _ s'] exI [of _ t'] exI [of _ pre]) simp
qed

subsection \<open>Log lines\<close>

lemma micro_loss_unscaled:
  assumes "acc \<noteq> 0" and "micro_loss f params acc b = Inr loss"
  shows "micro_loss f params 1 b = Inr (map_option (\<lambda>l. l * of_int acc) loss)"
proof -
  obtain X Y loss_mask where b: "b = (X, Y, loss_mask)" by (cases b)
  obtain logits aux where m: "model_fwd f params X = (logits, aux)"
    by (cases "model_fwd f params X")
  have c: "map_option (\<lambda>l. l * real_of_int acc) (map_option (\<lambda>l. l / real_of_int acc) x) = x"
    for x :: "real option"
    using assms(1) by (cases x) simp_all
  from assms show ?thesis
    by (auto simp: micro_loss_def b m Let_def c option.map_ident split: if_splits)
qed

text \<open>
  C6. A micro-step prints a log line if and only if its step index is a multiple of
  \<^verbatim>\<open>log_interval\<close> and the process is not distributed or has rank zero, and then it
  prints exactly one. The loss of the line is the loss before the division by
  \<^verbatim>\<open>accumulation_steps\<close> (what lines 67 to 74 give when they divide by one): the
  value passed to the backward pass multiplied by \<^verbatim>\<open>accumulation_steps\<close>. The
  learning rate of the line is the scheduled rate of the micro-step, which is what the
  last parameter group of the optimizer holds.
\<close>

theorem log_line_content:
  assumes "train_epoch_body g epoch step b s = Inr s'"
  shows "\<exists>lr loss raw.
           get_lr (int epoch * int (iter_per_epoch g) + int step)
             (epochs (args s) * int (iter_per_epoch g)) (learning_rate (args s)) = Inr lr
         \<and> micro_loss (fw g) (applied s) (accumulation_steps (args s)) b = Inr loss
         \<and> micro_loss (fw g) (applied s) 1 b = Inr raw
         \<and> raw = map_option (\<lambda>l. l * of_int (accumulation_steps (args s))) loss
         \<and> Backward loss \<in> set (new_events s s')
         \<and> printed (new_events s s') =
             (if int step mod log_interval (args s) = 0 \<and> (\<not> ddp g \<or> rank g = 0)
              then [TrainLog (epoch + 1) (epochs (args s)) step (iter_per_epoch g) raw lr
                      (epoch_time (log_time (fw g) epoch step - epoch_start_time (fw g) epoch)
                         step (iter_per_epoch g))]
              else [])
         \<and> (int step mod log_interval (args s) = 0 \<longrightarrow> lrs s' \<noteq> [] \<and> last (lrs s') = lr)"
proof -
  from body_trace [OF assms] obtain lr loss us ls cs where
    lr: "get_lr (int epoch * int (iter_per_epoch g) + int step)
             (epochs (args s) * int (iter_per_epoch g)) (learning_rate (args s)) = Inr lr" and
    ml: "micro_loss (fw g) (applied s) (accumulation_steps (args s)) b = Inr loss" and
    tr: "trace s' = trace s @ [SetLR lr, Forward (fst b), Backward loss] @ us @ ls @ cs" and
    us: "us = (if (int step + 1) mod accumulation_steps (args s) = 0
                 then [Unscale, ClipGradNorm (grad_clip (args s)), OptimizerStep, ScalerUpdate,
                       ZeroGrad]
                 else [])" and
    ls: "ls = (if int step mod log_interval (args s) = 0 then
                   (if designated g then
                      [Print (TrainLog (epoch + 1) (epochs (args s)) step (iter_per_epoch g)
                         (map_option (\<lambda>l. l * of_int (accumulation_steps (args s))) loss) lr
                         (epoch_time (log_time (fw g) epoch step - epoch_start_time (fw g) epoch)
                            step (iter_per_epoch g)))]
                    else [])
                   @ (if wandb g \<and> designated g then
                        [WandbLog (map_option (\<lambda>l. l * of_int (accumulation_steps (args s))) loss)
                           lr
                           (epoch_time (log_time (fw g) epoch step - epoch_start_time (fw g) epoch)
                              step (iter_per_epoch g))]
                      else [])
                 else [])" and
    cs: "if (int step + 1) mod save_interval (args s) = 0 \<and> designated g
            then \<exists>dir. save_dir (args s) = Some dir
                   \<and> cs = [ModelEval, TorchSave (ckp_path dir (lm_config g)) (applied s'),
                           ModelTrain]
                   \<and> files s' = (files s)(ckp_path dir (lm_config g) \<mapsto> applied s')
                   \<and> training s'
            else cs = [] \<and> files s' = files s \<and> training s' = training s"
    by blast
  define raw where "raw = map_option (\<lambda>l. l * of_int (accumulation_steps (args s))) loss"
  have raw: "micro_loss (fw g) (applied s) 1 b = Inr raw"
    unfolding raw_def using body_grads(1) [OF assms] ml by (rule micro_loss_unscaled)
  have ne: "new_events s s' = [SetLR lr, Forward (fst b), Backward loss] @ us @ ls @ cs"
    using tr by simp
  have bw: "Backward loss \<in> set (new_events s s')" unfolding ne by simp
  have pu: "printed us = []" unfolding us by simp
  have pc: "printed cs = []" using cs by (auto split: if_splits)
  have pl: "printed ls =
             (if int step mod log_interval (args s) = 0 \<and> (\<not> ddp g \<or> rank g = 0)
              then [TrainLog (epoch + 1) (epochs (args s)) step (iter_per_epoch g) raw lr
                      (epoch_time (log_time (fw g) epoch step - epoch_start_time (fw g) epoch)
                         step (iter_per_epoch g))]
              else [])"
    unfolding ls raw_def by (simp add: designated_def)
  have pr: "printed (new_events s s') =
             (if int step mod log_interval (args s) = 0 \<and> (\<not> ddp g \<or> rank g = 0)
              then [TrainLog (epoch + 1) (epochs (args s)) step (iter_per_epoch g) raw lr
                      (epoch_time (log_time (fw g) epoch step - epoch_start_time (fw g) epoch)
                         step (iter_per_epoch g))]
              else [])"
    unfolding ne using pu pc pl by simp
  have last: "lrs s' \<noteq> [] \<and> last (lrs s') = lr" if l: "int step mod log_interval (args s) = 0"
  proof -
    obtain loss0 s1 s2 s3 where
      fb: "forward_backward g epoch step b s = Inr (loss0, s1)" and
      ab: "accumulation_boundary step s1 = Inr s2" and
      lg: "log_step g epoch step loss0 s2 = Inr s3" and
      sv: "save_step g step s3 = Inr s'"
      using assms by (rule body_Inr)
    from forward_backward_Inr [OF fb] obtain lr0 where
      s1: "s1 = backward (epoch, step) loss0 (emit (Forward (fst b)) (set_lr lr0 s))" by blast
    have a2: "args s2 = args s" "lrs s2 = lrs s1"
      using accumulation_boundary_Inr(2) [OF ab] s1 by (simp_all split: if_splits)
    have "lrs s2 \<noteq> []" using log_step_trace(2) [OF lg] l a2 by simp
    moreover have "lrs s' = lrs s2"
      using save_step_Inr(3) [OF sv] log_step_Inr(3) [OF lg] by simp
    ultimately have n: "lrs s' \<noteq> []" by simp
    from body_lrs [OF assms] lr have e: "lrs s' = map (\<lambda>_. lr) (lrs s)" by simp
    with n have "lrs s \<noteq> []" by auto
    then have "last (map (\<lambda>_. lr) (lrs s)) = lr" by (simp add: last_map)
    with n e show ?thesis by simp
  qed
  from lr ml raw raw_def bw pr last show ?thesis by blast
qed

theorem log_line_content_witness:
  "\<exists>s' t'.
      train_epoch_body demo_rank0 0 0 (hd demo_loader) demo_world = Inr s'
    \<and> train_epoch_body demo_rank1 0 0 (hd demo_loader) demo_world = Inr t'
    \<and> int 0 mod log_interval (args demo_world) = 0
    \<and> Backward (Some 3) \<in> set (new_events demo_world s')
    \<and> printed (new_events demo_world s') = [TrainLog 1 2 0 3 (Some 6) (11 / 10) 0]
    \<and> last (lrs s') = 11 / 10
    \<and> printed (new_events demo_world t') = []"
proof -
  have m: "hd demo_loader \<in> set (train_loader demo_rank0)"
    "hd demo_loader \<in> set (train_loader demo_rank1)"
    by (simp_all add: demo_rank0_def demo_rank1_def demo_globals_def demo_loader_def)
  from body_completes [OF demo_ranks_runnable(1) m(1), of 0 0] obtain s' where
    s': "train_epoch_body demo_rank0 0 0 (hd demo_loader) demo_world = Inr s'" by blast
  from body_completes [OF demo_ranks_runnable(2) m(2), of 0 0] obtain t' where
    t': "train_epoch_body demo_rank1 0 0 (hd demo_loader) demo_world = Inr t'" by blast
  have c: "int 0 mod log_interval (args demo_world) = 0"
    "ddp demo_rank0" "rank demo_rank0 = 0" "ddp demo_rank1" "rank demo_rank1 \<noteq> 0"
    "epochs (args demo_world) = 2" "accumulation_steps (args demo_world) = 2"
    "iter_per_epoch demo_rank0 = 3" "iter_per_epoch demo_rank1 = 3"
    "learning_rate (args demo_world) = 1"
    "epoch_time (log_time (fw demo_rank0) 0 0 - epoch_start_time (fw demo_rank0) 0) 0 3 = 0"
    by (simp_all add: demo_world_def demo_args_def demo_rank0_def demo_rank1_def
          demo_globals_def iter_per_epoch_def demo_loader_def demo_fw_def epoch_time_def)
  have v: "micro_loss (fw demo_rank0) (applied demo_world) 2 (hd demo_loader) = Inr (Some 3)"
    "micro_loss (fw demo_rank0) (applied demo_world) 1 (hd demo_loader) = Inr (Some 6)"
    "get_lr 0 6 1 = Inr (11 / 10)"
    by (simp_all add: micro_loss_def masked_mean_def demo_rank0_def demo_globals_def
          demo_fw_def demo_loader_def demo_world_def get_lr_def Let_def)
  from log_line_content [OF s'] c v
  have 1: "Backward (Some 3) \<in> set (new_events demo_world s')"
    "printed (new_events demo_world s') = [TrainLog 1 2 0 3 (Some 6) (11 / 10) 0]"
    "last (lrs s') = 11 / 10"
    by auto
  from log_line_content [OF t'] c
  have 2: "printed (new_events demo_world t') = []" by auto
  from s' t' c(1) 1 2 show ?thesis
    by (intro exI [of _ s'] exI [of _ t']) simp
qed

subsection \<open>The loss of a micro-batch\<close>

lemma masked_products_agree:
  assumes "length ls' = length ls" and "length ms = length ls"
    and "\<forall>i < length ls. ms ! i \<noteq> 0 \<longrightarrow> ls' ! i = ls ! i"
  shows "map2 (*) ls' ms = map2 (*) ls (ms :: real list)"
proof (rule nth_equalityI)
  show "length (map2 (*) ls' ms) = length (map2 (*) ls ms)" using assms by simp
next
  fix i assume "i < length (map2 (*) ls' ms)"
  then have i: "i < length ls" "i < length ls'" "i < length ms" using assms by simp_all
  show "map2 (*) ls' ms ! i = map2 (*) ls ms ! i"
  proof (cases "ms ! i = 0")
    case True
    with i show ?thesis by simp
  next
    case False
    with assms(3) i have "ls' ! i = ls ! i" by simp
    with i show ?thesis by simp
  qed
qed

text \<open>
  C4 (as the code has it). The mask is applied to the cross entropy of the positions
  only; the logits and the auxiliary loss come from the forward pass on the whole of
  \<^verbatim>\<open>X\<close>. Two batches of one shape with the same mask give the same loss when, at
  every position the mask does not zero, the targets agree and the forward pass gives
  the same logits, and the forward pass gives the same auxiliary loss. In particular
  this is so for two batches with the same \<^verbatim>\<open>X\<close> whose targets differ only where
  the mask is zero.
\<close>

theorem loss_ignores_masked_positions:
  assumes "model_fwd f params X = (logits, aux)" and "model_fwd f params X' = (logits', aux)"
    and "length logits' = length logits" and "length Y' = length Y"
    and "\<forall>i < length Y. loss_mask ! i \<noteq> 0 \<longrightarrow> logits' ! i = logits ! i \<and> Y' ! i = Y ! i"
  shows "micro_loss f params acc (X', Y', loss_mask) = micro_loss f params acc (X, Y, loss_mask)"
proof (cases "length logits \<noteq> length Y \<or> length loss_mask \<noteq> length Y")
  case True
  with assms(1-4) show ?thesis by (auto simp: micro_loss_def)
next
  case False
  then have len: "length logits = length Y" "length loss_mask = length Y" by simp_all
  have "map2 (*) (map2 (loss_fct f) logits' Y') loss_mask
          = map2 (*) (map2 (loss_fct f) logits Y) loss_mask"
  proof (rule masked_products_agree)
    show "length (map2 (loss_fct f) logits' Y') = length (map2 (loss_fct f) logits Y)"
      using assms(3,4) by simp
    show "length loss_mask = length (map2 (loss_fct f) logits Y)" using len by simp
    show "\<forall>i < length (map2 (loss_fct f) logits Y).
            loss_mask ! i \<noteq> 0 \<longrightarrow>
            map2 (loss_fct f) logits' Y' ! i = map2 (loss_fct f) logits Y ! i"
      using assms(3-5) len by simp
  qed
  then have "masked_mean (map2 (loss_fct f) logits' Y') loss_mask
               = masked_mean (map2 (loss_fct f) logits Y) loss_mask"
    by (simp add: masked_mean_def)
  with assms(1-4) len show ?thesis by (simp add: micro_loss_def Let_def)
qed

theorem loss_ignores_masked_positions_witness:
  "model_fwd demo_fw [] [1, 2] = ([[1], [2]], 3)
   \<and> [1, 0 :: real] ! 0 \<noteq> 0 \<and> [2, 9 :: int] ! 0 = [2, 3] ! 0
   \<and> [1, 0 :: real] ! 1 = 0 \<and> [2, 9 :: int] ! 1 \<noteq> [2, 3] ! 1
   \<and> micro_loss demo_fw [] 2 ([1, 2], [2, 9], [1, 0])
       = micro_loss demo_fw [] 2 ([1, 2], [2, 3], [1, 0])
   \<and> micro_loss demo_fw [] 2 ([1, 2], [2, 3], [1, 0]) = Inr (Some 3)"
proof -
  have m: "model_fwd demo_fw [] [1, 2] = ([[1], [2]], 3)" by (simp add: demo_fw_def)
  have h: "\<forall>i < length [2, 3 :: int]. [1, 0 :: real] ! i \<noteq> 0 \<longrightarrow>
         [[1], [2 :: real]] ! i = [[1], [2]] ! i \<and> [2, 9 :: int] ! i = [2, 3] ! i"
    by (simp add: less_Suc_eq)
  have v: "micro_loss demo_fw [] 2 ([1, 2], [2, 3], [1, 0]) = Inr (Some 3)"
    by (simp add: micro_loss_def masked_mean_def demo_fw_def Let_def)
  from loss_ignores_masked_positions [OF m m _ _ h, of 2] m v show ?thesis by simp
qed

theorem loss_depends_on_masked_input:
  "micro_loss demo_fw [] 2 ([1, 2], [2, 3], [1, 0]) = Inr (Some 3)
   \<and> micro_loss demo_fw [] 2 ([1, 7], [2, 3], [1, 0]) = Inr (Some (11 / 2))"
  by (simp add: micro_loss_def masked_mean_def demo_fw_def Let_def)

lemma mask_sum_zero_iff:
  assumes "set loss_mask \<subseteq> {0, 1 :: real}"
  shows "sum_list loss_mask = 0 \<longleftrightarrow> (\<forall>m \<in> set loss_mask. m = 0)"
proof -
  have "\<And>m. m \<in> set loss_mask \<Longrightarrow> 0 \<le> m" using assms by auto
  then show ?thesis by (rule sum_list_nonneg_eq_0_iff)
qed

text \<open>
  C9. Let the mask of a batch be zero or one at every position. The masked mean of
  line 72 divides by the sum of the mask, which is zero exactly when no position is
  valid; it is a number if and only if the batch has a valid position. On a batch
  without one, the loss passed to the backward pass is not a number either.
\<close>

theorem loss_needs_a_valid_token:
  assumes "set loss_mask \<subseteq> {0, 1}"
  shows "(sum_list loss_mask = 0 \<longleftrightarrow> (\<forall>m \<in> set loss_mask. m = 0))
       \<and> (masked_mean loss loss_mask \<noteq> None \<longleftrightarrow> (\<exists>m \<in> set loss_mask. m = 1))
       \<and> (shapes_agree f (X, Y, loss_mask) \<longrightarrow>
            ((\<forall>m \<in> set loss_mask. m = 0)
               \<longrightarrow> micro_loss f params acc (X, Y, loss_mask) = Inr None)
          \<and> ((\<exists>m \<in> set loss_mask. m = 1) \<and> acc \<noteq> 0
               \<longrightarrow> (\<exists>l. micro_loss f params acc (X, Y, loss_mask) = Inr (Some l))))"
proof -
  note z = mask_sum_zero_iff [OF assms]
  have one: "(\<exists>m \<in> set loss_mask. m = 1) \<longleftrightarrow> \<not> (\<forall>m \<in> set loss_mask. m = 0)"
  proof
    assume "\<exists>m \<in> set loss_mask. m = 1"
    then have "(1::real) \<in> set loss_mask" by simp
    then show "\<not> (\<forall>m \<in> set loss_mask. m = 0)" by (metis zero_neq_one)
  next
    assume "\<not> (\<forall>m \<in> set loss_mask. m = 0)"
    then obtain m where "m \<in> set loss_mask" "m \<noteq> 0" by blast
    with assms show "\<exists>m \<in> set loss_mask. m = 1" by auto
  qed
  have mm: "masked_mean loss loss_mask \<noteq> None \<longleftrightarrow> (\<exists>m \<in> set loss_mask. m = 1)"
    unfolding one z [symmetric] by (simp add: masked_mean_def)
  have ml: "((\<forall>m \<in> set loss_mask. m = 0)
               \<longrightarrow> micro_loss f params acc (X, Y, loss_mask) = Inr None)
          \<and> ((\<exists>m \<in> set loss_mask. m = 1) \<and> acc \<noteq> 0
               \<longrightarrow> (\<exists>l. micro_loss f params acc (X, Y, loss_mask) = Inr (Some l)))"
    if sh: "shapes_agree f (X, Y, loss_mask)"
  proof -
    obtain logits aux where m: "model_fwd f params X = (logits, aux)"
      by (cases "model_fwd f params X")
    from sh m have len: "length loss_mask = length Y" "length logits = length Y"
      by (auto simp: shapes_agree_def dest: spec [of _ params])
    have "micro_loss f params acc (X, Y, loss_mask) = Inr None"
      if "\<forall>m \<in> set loss_mask. m = 0"
      using that z m len by (simp add: micro_loss_def masked_mean_def Let_def)
    moreover have "\<exists>l. micro_loss f params acc (X, Y, loss_mask) = Inr (Some l)"
      if "(\<exists>m \<in> set loss_mask. m = 1) \<and> acc \<noteq> 0"
    proof -
      from that one z have "sum_list loss_mask \<noteq> 0" by simp
      with that m len show ?thesis by (simp add: micro_loss_def masked_mean_def Let_def)
    qed
    ultimately show ?thesis by blast
  qed
  from z mm ml show ?thesis by blast
qed

theorem loss_needs_a_valid_token_witness:
  "set [0, 0 :: real] \<subseteq> {0, 1} \<and> set [1, 0 :: real] \<subseteq> {0, 1}
   \<and> shapes_agree demo_fw ([1, 2], [2, 3], [0, 0])
   \<and> sum_list [0, 0 :: real] = 0
   \<and> masked_mean [3, 5] [0, 0] = None
   \<and> micro_loss demo_fw [] 2 ([1, 2], [2, 3], [0, 0]) = Inr None
   \<and> (\<exists>l. micro_loss demo_fw [] 2 ([1, 2], [2, 3], [1, 0]) = Inr (Some l))"
proof -
  have h: "set [0, 0 :: real] \<subseteq> {0, 1}" "set [1, 0 :: real] \<subseteq> {0, 1}" by simp_all
  have sh: "shapes_agree demo_fw ([1, 2], [2, 3], [0, 0])"
    "shapes_agree demo_fw ([1, 2], [2, 3], [1, 0])"
    by (simp_all add: shapes_agree_def demo_fw_def)
  from loss_needs_a_valid_token [OF h(1), of "[3, 5]" demo_fw "[1, 2]" "[2, 3]" "[]" 2] sh(1)
  have 1: "sum_list [0, 0 :: real] = 0" "masked_mean [3, 5] [0, 0] = None"
    "micro_loss demo_fw [] 2 ([1, 2], [2, 3], [0, 0]) = Inr None"
    by auto
  from loss_needs_a_valid_token [OF h(2), of "[3, 5]" demo_fw "[1, 2]" "[2, 3]" "[]" 2] sh(2)
  have 2: "\<exists>l. micro_loss demo_fw [] 2 ([1, 2], [2, 3], [1, 0]) = Inr (Some l)"
    by auto
  from h sh(1) 1 2 show ?thesis by simp
qed

subsection \<open>What a run changes, also when it raises\<close>

lemma final_then_do:
  "final (then_do r f) = (case r of Inl (e, s) \<Rightarrow> s | Inr x \<Rightarrow> final (f x))"
  by (cases r) (auto simp: final_def)

lemma quiet_refl [simp]: "quiet s s"
  by (simp add: quiet_def)

lemma quiet_trans: "quiet s t \<Longrightarrow> quiet t u \<Longrightarrow> quiet s u"
  by (simp add: quiet_def)

lemma quiet_step_effect: "quiet s t \<Longrightarrow> step_effect g t u \<Longrightarrow> step_effect g s u"
  by (auto simp: quiet_def step_effect_def)

lemma quiet_imp_step_effect: "quiet s t \<Longrightarrow> step_effect g s t"
  by (simp add: quiet_def step_effect_def)

lemma forward_backward_quiet:
  "case forward_backward g epoch step b s of
     Inl (e, s1) \<Rightarrow> quiet s s1
   | Inr (loss, s1) \<Rightarrow> quiet s s1"
  by (simp add: forward_backward_def Let_def quiet_def split: sum.splits)

lemma accumulation_boundary_quiet: "quiet s (final (accumulation_boundary step s))"
  by (simp add: accumulation_boundary_def quiet_def)

lemma log_step_quiet: "quiet s (final (log_step g epoch step loss s))"
  by (simp add: log_step_def Let_def quiet_def)

lemma save_step_effect: "step_effect g s (final (save_step g step s))"
  by (auto simp: save_step_def Let_def step_effect_def split: option.splits)

lemma body_effect: "step_effect g s (final (train_epoch_body g epoch step b s))"
proof (cases "forward_backward g epoch step b s")
  case (Inl x)
  obtain e s1 where x: "x = (e, s1)" by (cases x)
  from forward_backward_quiet [where g = g and epoch = epoch and step = step and b = b and s = s] Inl x have "quiet s s1" by simp
  then show ?thesis
    by (simp add: train_epoch_body_def Inl x quiet_imp_step_effect)
next
  case (Inr y)
  obtain loss s1 where y: "y = (loss, s1)" by (cases y)
  from forward_backward_quiet [where g = g and epoch = epoch and step = step and b = b and s = s] Inr y have q1: "quiet s s1" by simp
  have b: "train_epoch_body g epoch step b s =
             then_do (then_do (accumulation_boundary step s1) (log_step g epoch step loss))
               (save_step g step)"
    by (simp add: train_epoch_body_def Inr y)
  show ?thesis
  proof (cases "accumulation_boundary step s1")
    case (Inl x)
    obtain e s2 where x: "x = (e, s2)" by (cases x)
    from accumulation_boundary_quiet [of s1 step] Inl x have "quiet s1 s2" by simp
    with q1 have "quiet s s2" by (rule quiet_trans)
    then show ?thesis by (simp add: b Inl x quiet_imp_step_effect)
  next
    case ab: (Inr s2)
    from accumulation_boundary_quiet [of s1 step] ab have "quiet s1 s2" by simp
    with q1 have q2: "quiet s s2" by (rule quiet_trans)
    show ?thesis
    proof (cases "log_step g epoch step loss s2")
      case (Inl x)
      obtain e s3 where x: "x = (e, s3)" by (cases x)
      from log_step_quiet [of s2 g epoch step loss] Inl x have "quiet s2 s3" by simp
      with q2 have "quiet s s3" by (rule quiet_trans)
      then show ?thesis by (simp add: b ab Inl x quiet_imp_step_effect)
    next
      case lg: (Inr s3)
      from log_step_quiet [of s2 g epoch step loss] lg have "quiet s2 s3" by simp
      with q2 have q3: "quiet s s3" by (rule quiet_trans)
      from quiet_step_effect [OF q3 save_step_effect [of g s3 step]]
      show ?thesis by (simp add: b ab lg)
    qed
  qed
qed

lemma enumerate_loop_final:
  assumes "P s" and "\<And>t t'. P t \<Longrightarrow> step_effect g t t' \<Longrightarrow> P t'"
  shows "P (final (enumerate_loop g epoch step bs s))"
  using assms(1)
proof (induction bs arbitrary: step s)
  case Nil
  then show ?case by simp
next
  case (Cons b bs)
  have p: "P (final (train_epoch_body g epoch step b s))"
    using Cons.prems body_effect by (rule assms(2))
  show ?case
  proof (cases "train_epoch_body g epoch step b s")
    case (Inl x)
    with p show ?thesis by simp
  next
    case (Inr s1)
    with p have "P s1" by simp
    from Cons.IH [OF this] Inr show ?thesis by simp
  qed
qed

lemma epoch_loop_final:
  assumes "P s" and "\<And>t t'. P t \<Longrightarrow> step_effect g t t' \<Longrightarrow> P t'"
  shows "P (final (epoch_loop g es s))"
  using assms(1)
proof (induction es arbitrary: s)
  case Nil
  then show ?case by simp
next
  case (Cons e es)
  have p: "P (final (train_epoch g e s))"
    unfolding train_epoch_def using Cons.prems assms(2) by (rule enumerate_loop_final)
  show ?case
  proof (cases "train_epoch g e s")
    case (Inl x)
    with p show ?thesis by simp
  next
    case (Inr s1)
    with p have "P s1" by simp
    from Cons.IH [OF this] Inr show ?thesis by simp
  qed
qed

lemma train_epoch_final_args: "args (final (train_epoch g epoch s)) = args s"
proof -
  have "(\<lambda>t. args t = args s) (final (enumerate_loop g epoch 0 (train_loader g) s))"
    by (rule enumerate_loop_final) (simp_all add: step_effect_def)
  then show ?thesis by (simp add: train_epoch_def)
qed

lemma train_all_final_args: "args (final (train_all g s)) = args s"
proof -
  have "(\<lambda>t. args t = args s) (final (epoch_loop g [0..<nat (epochs (args s))] s))"
    by (rule epoch_loop_final) (simp_all add: step_effect_def)
  then show ?thesis by (simp add: train_all_def)
qed

lemma run_training_final_args: "args (final (run_training env f loader p s)) = args s"
proof -
  obtain lmc is_ddp l d where p: "p = (lmc, is_ddp, l, d)" by (cases p)
  show ?thesis by (simp add: run_training_def p Let_def train_all_final_args)
qed

lemma startup_args:
  assumes "startup env f (boot parsed fs) = Inr (p, s0)"
  shows "args s0 = parsed
           \<lparr>device := (if fst (snd p) then snd (snd (snd p)) else device parsed),
            save_dir := Some (out_dir parsed),
            wandb_run_name :=
              Some (''MiniMind-Pretrain-Epoch-'' @ str_int (epochs parsed)
                    @ ''-BatchSize-'' @ str_int (batch_size parsed)
                    @ ''-LearningRate-'' @ fmt_float f (learning_rate parsed))\<rparr>"
    and "files s0 = fs" and "trace s0 = []"
    and "fst p = LMConfig (dim parsed) (n_layers parsed) (max_seq_len parsed) (use_moe parsed)"
  using assms
  by (auto simp: startup_def boot_def Let_def split: if_splits sum.splits option.splits)

text \<open>
  C7. The namespace is written during start-up only (lines 177 to 232: the parsed
  values, the two attributes \<^verbatim>\<open>save_dir\<close> and \<^verbatim>\<open>wandb_run_name\<close> added to them,
  and the device replaced under distributed execution). Whatever runs after start-up,
  the model initialisation, every epoch and every micro-step, leaves every field as
  start-up left it, also when the run raises.
\<close>

theorem args_read_only_after_startup:
  "args (final (run_training env f loader p s)) = args s
   \<and> args (final (train_epoch g epoch s)) = args s
   \<and> (startup env f (boot parsed fs) = Inr (p, s0) \<longrightarrow>
        args (final (main env f loader parsed fs)) = args s0
      \<and> args s0 = parsed
           \<lparr>device := (if fst (snd p) then snd (snd (snd p)) else device parsed),
            save_dir := Some (out_dir parsed),
            wandb_run_name :=
              Some (''MiniMind-Pretrain-Epoch-'' @ str_int (epochs parsed)
                    @ ''-BatchSize-'' @ str_int (batch_size parsed)
                    @ ''-LearningRate-'' @ fmt_float f (learning_rate parsed))\<rparr>)"
proof (intro conjI impI)
  show "args (final (run_training env f loader p s)) = args s"
    by (rule run_training_final_args)
  show "args (final (train_epoch g epoch s)) = args s"
    by (rule train_epoch_final_args)
next
  assume st: "startup env f (boot parsed fs) = Inr (p, s0)"
  show "args (final (main env f loader parsed fs)) = args s0"
    by (simp add: main_def st run_training_final_args)
  show "args s0 = parsed
           \<lparr>device := (if fst (snd p) then snd (snd (snd p)) else device parsed),
            save_dir := Some (out_dir parsed),
            wandb_run_name :=
              Some (''MiniMind-Pretrain-Epoch-'' @ str_int (epochs parsed)
                    @ ''-BatchSize-'' @ str_int (batch_size parsed)
                    @ ''-LearningRate-'' @ fmt_float f (learning_rate parsed))\<rparr>"
    by (rule startup_args(1) [OF st])
qed

lemma demo_startup:
  "startup demo_env demo_fw (boot demo_args Map.empty) =
     Inr ((LMConfig 512 8 512 False, False, 0, ''cuda:0''),
          (boot demo_args Map.empty)
            \<lparr>args := demo_args
               \<lparr>save_dir := Some ''out'',
                wandb_run_name :=
                  Some ''MiniMind-Pretrain-Epoch-2-BatchSize-1-LearningRate-1.0''\<rparr>\<rparr>)"
  by (simp add: startup_def boot_def demo_env_def demo_args_def demo_fw_def Let_def
          str_int_def str_nat.simps)

theorem args_read_only_after_startup_witness:
  "\<exists>p s0. startup demo_env demo_fw (boot demo_args Map.empty) = Inr (p, s0)
     \<and> args (final (main demo_env demo_fw demo_loader demo_args Map.empty)) = args s0
     \<and> args s0 = demo_args
          \<lparr>save_dir := Some ''out'',
           wandb_run_name := Some ''MiniMind-Pretrain-Epoch-2-BatchSize-1-LearningRate-1.0''\<rparr>"
proof (intro exI conjI)
  show "startup demo_env demo_fw (boot demo_args Map.empty) =
     Inr ((LMConfig 512 8 512 False, False, 0, ''cuda:0''),
          (boot demo_args Map.empty)
            \<lparr>args := demo_args
               \<lparr>save_dir := Some ''out'',
                wandb_run_name :=
                  Some ''MiniMind-Pretrain-Epoch-2-BatchSize-1-LearningRate-1.0''\<rparr>\<rparr>)"
    by (rule demo_startup)
  from args_read_only_after_startup [where env = demo_env and f = demo_fw
      and loader = demo_loader and parsed = demo_args and fs = Map.empty,
      THEN conjunct2, THEN conjunct2, THEN mp, OF demo_startup, THEN conjunct1]
  show "args (final (main demo_env demo_fw demo_loader demo_args Map.empty)) =
      args ((boot demo_args Map.empty)
            \<lparr>args := demo_args
               \<lparr>save_dir := Some ''out'',
                wandb_run_name :=
                  Some ''MiniMind-Pretrain-Epoch-2-BatchSize-1-LearningRate-1.0''\<rparr>\<rparr>)" .
  show "args ((boot demo_args Map.empty)
            \<lparr>args := demo_args
               \<lparr>save_dir := Some ''out'',
                wandb_run_name :=
                  Some ''MiniMind-Pretrain-Epoch-2-BatchSize-1-LearningRate-1.0''\<rparr>\<rparr>)
        = demo_args
          \<lparr>save_dir := Some ''out'',
           wandb_run_name := Some ''MiniMind-Pretrain-Epoch-2-BatchSize-1-LearningRate-1.0''\<rparr>"
    by simp
qed

subsection \<open>The checkpoint file over a whole run\<close>

lemma ckpt_inv_step:
  assumes "args t = a \<and> ckpt_inv ckp fs t" and "step_effect g t t'"
    and "save_dir a = Some dir" and "ckp = ckp_path dir (lm_config g)"
  shows "args t' = a \<and> ckpt_inv ckp fs t'"
proof -
  from assms(1,2) have a: "args t' = a" by (simp add: step_effect_def)
  from assms(2) consider
    (same) "files t' = files t \<and> saved (trace t') = saved (trace t)"
  | (wrote) v where "files t' = (files t)(ckp \<mapsto> v)
      \<and> saved (trace t') = saved (trace t) @ [(ckp, v)]"
    using assms(1,3,4) by (auto simp: step_effect_def)
  then have "ckpt_inv ckp fs t'"
  proof cases
    case same
    with assms(1) show ?thesis by (simp add: ckpt_inv_def)
  next
    case wrote
    with assms(1) show ?thesis by (simp add: ckpt_inv_def)
  qed
  with a show ?thesis by simp
qed

lemma startup_raises:
  assumes "startup env f (boot parsed fs) = Inl (e, s0)"
  shows "files s0 = fs" and "trace s0 = []"
  using assms
  by (auto simp: startup_def boot_def Let_def split: if_splits sum.splits option.splits)

lemma main_ckpt_inv:
  "ckpt_inv (ckp_path (out_dir parsed)
               (LMConfig (dim parsed) (n_layers parsed) (max_seq_len parsed) (use_moe parsed)))
     fs (final (main env f loader parsed fs))"
proof (cases "startup env f (boot parsed fs)")
  case (Inl x)
  obtain e s0 where x: "x = (e, s0)" by (cases x)
  from startup_raises [OF Inl [unfolded x]] show ?thesis
    by (simp add: main_def Inl x ckpt_inv_def)
next
  case (Inr y)
  obtain p s0 where y: "y = (p, s0)" by (cases y)
  obtain lmc is_ddp l d where p: "p = (lmc, is_ddp, l, d)" by (cases p)
  note st = startup_args [OF Inr [unfolded y]]
  define ckp where "ckp = ckp_path (out_dir parsed)
               (LMConfig (dim parsed) (n_layers parsed) (max_seq_len parsed) (use_moe parsed))"
  define g where "g = \<lparr>lm_config = lmc, ddp = is_ddp,
                 rank = (case RANK env of None \<Rightarrow> - 1 | Some r \<Rightarrow> r),
                 ddp_local_rank = l, DEVICE = d,
                 wandb = (use_wandb (args s0) \<and> (\<not> is_ddp \<or> l = 0)),
                 train_loader = loader, fw = f\<rparr>"
  define s1 where "s1 = (Logger g (ParamCount (n_params f)) s0)
                          \<lparr>lrs := [learning_rate (args s0)]\<rparr>"
  have m: "main env f loader parsed fs = train_all g s1"
    by (simp add: main_def Inr y p run_training_def Let_def g_def s1_def)
  have sd: "save_dir (args s1) = Some (out_dir parsed)"
    by (simp add: s1_def st(1))
  have lc: "ckp = ckp_path (out_dir parsed) (lm_config g)"
    using st(4) by (simp add: ckp_def g_def p)
  have i1: "args s1 = args s1 \<and> ckpt_inv ckp fs s1"
    using st(2,3) by (simp add: s1_def ckpt_inv_def)
  have "(\<lambda>t. args t = args s1 \<and> ckpt_inv ckp fs t)
          (final (epoch_loop g [0..<nat (epochs (args s1))] s1))"
    using i1
  proof (rule epoch_loop_final)
    fix t t' assume "args t = args s1 \<and> ckpt_inv ckp fs t" "step_effect g t t'"
    then show "args t' = args s1 \<and> ckpt_inv ckp fs t'"
      using sd lc by (rule ckpt_inv_step)
  qed
  then show ?thesis by (simp add: m train_all_def ckp_def)
qed

text \<open>
  C10. The path of the checkpoint is built from \<^verbatim>\<open>out_dir\<close>, \<^verbatim>\<open>dim\<close> and
  \<^verbatim>\<open>use_moe\<close> and from nothing else. In the state a run ends in, whether it completes
  or raises, every checkpoint write of the trace went to that one path, every other file
  is as it was before the run, and the file at that path holds the snapshot of the last
  write (or what it held before the run, if there was no write).
\<close>

theorem single_checkpoint_file:
  "ckp_path (out_dir parsed)
     (LMConfig (dim parsed) (n_layers parsed) (max_seq_len parsed) (use_moe parsed))
     = out_dir parsed @ ''/pretrain_'' @ str_int (dim parsed)
         @ (if use_moe parsed then ''_moe'' else []) @ ''.pth''
   \<and> (\<forall>w \<in> set (saved (trace (final (main env f loader parsed fs)))).
         fst w = out_dir parsed @ ''/pretrain_'' @ str_int (dim parsed)
                   @ (if use_moe parsed then ''_moe'' else []) @ ''.pth'')
   \<and> (\<forall>q. q \<noteq> out_dir parsed @ ''/pretrain_'' @ str_int (dim parsed)
                   @ (if use_moe parsed then ''_moe'' else []) @ ''.pth''
         \<longrightarrow> files (final (main env f loader parsed fs)) q = fs q)
   \<and> files (final (main env f loader parsed fs))
        (out_dir parsed @ ''/pretrain_'' @ str_int (dim parsed)
           @ (if use_moe parsed then ''_moe'' else []) @ ''.pth'')
       = (if saved (trace (final (main env f loader parsed fs))) = []
          then fs (out_dir parsed @ ''/pretrain_'' @ str_int (dim parsed)
                     @ (if use_moe parsed then ''_moe'' else []) @ ''.pth'')
          else Some (snd (last (saved (trace (final (main env f loader parsed fs)))))))"
proof -
  have p: "ckp_path (out_dir parsed)
     (LMConfig (dim parsed) (n_layers parsed) (max_seq_len parsed) (use_moe parsed))
     = out_dir parsed @ ''/pretrain_'' @ str_int (dim parsed)
         @ (if use_moe parsed then ''_moe'' else []) @ ''.pth''"
    by (simp add: ckp_path_def LMConfig_def)
  from main_ckpt_inv [of parsed fs env f loader, unfolded p ckpt_inv_def] p
  show ?thesis by simp
qed

lemma body_saved_paths:
  assumes "train_epoch_body g epoch step b s = Inr s'" and "save_dir (args s) = Some dir"
  shows "map fst (saved (trace s')) = map fst (saved (trace s))
           @ (if (int step + 1) mod save_interval (args s) = 0 \<and> designated g
              then [ckp_path dir (lm_config g)] else [])"
proof -
  from body_trace [OF assms(1)] obtain es where "trace s' = trace s @ es" by blast
  then have tr: "trace s' = trace s @ new_events s s'" by simp
  have "map fst (saved (new_events s s'))
          = (if (int step + 1) mod save_interval (args s) = 0 \<and> designated g
             then [ckp_path dir (lm_config g)] else [])"
    using body_saved [OF assms(1)] assms(2) by (auto split: if_splits)
  then show ?thesis by (subst tr) simp
qed

lemma enumerate_saved_paths:
  assumes "0 < save_interval (args s)" and "save_dir (args s) = Some dir"
    and "enumerate_loop g epoch 0 bs s = Inr s'"
  shows "args s' = args s
       \<and> map fst (saved (trace s')) = map fst (saved (trace s))
           @ replicate (if designated g then length bs div nat (save_interval (args s)) else 0)
               (ckp_path dir (lm_config g))"
  using assms(3)
proof (induction bs arbitrary: s' rule: rev_induct)
  case Nil
  then show ?case by simp
next
  case (snoc b bs)
  from snoc.prems obtain s1 where
    s1: "enumerate_loop g epoch 0 bs s = Inr s1" and
    bd: "train_epoch_body g epoch (length bs) b s1 = Inr s'"
    by (auto simp: enumerate_loop_snoc then_do_Inr_iff)
  note ih = snoc.IH [OF s1]
  have a1: "args s1 = args s" using ih by simp
  have sd: "save_dir (args s1) = Some dir" using a1 assms(2) by simp
  have bn: "((int (length bs) + 1) mod save_interval (args s1) = 0)
              = (Suc (length bs) mod nat (save_interval (args s)) = 0)"
    unfolding a1 by (rule boundary_nat [OF assms(1)])
  from body_saved_paths [OF bd sd, unfolded bn] ih body_grads(2) [OF bd] a1
  show ?case by (simp add: div_Suc replicate_append_same)
qed

lemma epoch_loop_saved_paths:
  assumes "0 < save_interval (args s)" and "save_dir (args s) = Some dir"
    and "epoch_loop g es s = Inr s'"
  shows "args s' = args s
       \<and> map fst (saved (trace s')) = map fst (saved (trace s))
           @ replicate (if designated g
                        then length es * (iter_per_epoch g div nat (save_interval (args s)))
                        else 0)
               (ckp_path dir (lm_config g))"
  using assms(3)
proof (induction es arbitrary: s' rule: rev_induct)
  case Nil
  then show ?case by simp
next
  case (snoc e es)
  from snoc.prems obtain s1 where
    s1: "epoch_loop g es s = Inr s1" and ep: "train_epoch g e s1 = Inr s'"
    by (auto simp: epoch_loop_snoc then_do_Inr_iff)
  note ih = snoc.IH [OF s1]
  have a1: "args s1 = args s" using ih by simp
  have h: "0 < save_interval (args s1)" "save_dir (args s1) = Some dir"
    using a1 assms(1,2) by simp_all
  from enumerate_saved_paths [OF h ep [unfolded train_epoch_def]] ih a1
  show ?case by (simp add: iter_per_epoch_def replicate_add [symmetric] add.commute)
qed

lemma demo_checkpoint_facts:
  "0 < save_interval (args demo_world)" "save_dir (args demo_world) = Some ''out''"
  "designated demo_globals" "saved (trace demo_world) = []"
  "ckp_path ''out'' (lm_config demo_globals) = ''out/pretrain_512.pth''"
  "save_interval (args demo_world) = 2"
  by (simp_all add: demo_world_def demo_args_def demo_globals_def designated_def ckp_path_def
        LMConfig_def str_int_def str_nat.simps)

lemma demo_checkpoint_paths:
  "map fst (saved (trace (final (main demo_env demo_fw demo_loader demo_args Map.empty))))
     = [''out/pretrain_512.pth'', ''out/pretrain_512.pth'']"
proof -
  from demo_two_epochs obtain s2 where
    al: "train_all demo_globals demo_world = Inr s2" by blast
  have r: "replicate (2 * (3 div nat 2)) ''out/pretrain_512.pth''
             = [''out/pretrain_512.pth'', ''out/pretrain_512.pth'']"
    by code_simp
  from epoch_loop_saved_paths [OF demo_checkpoint_facts(1,2) al [unfolded train_all_def]]
  have "map fst (saved (trace s2)) = [''out/pretrain_512.pth'', ''out/pretrain_512.pth'']"
    using r by (simp add: demo_checkpoint_facts demo_facts)
  then show ?thesis by (simp add: main_demo al)
qed

theorem single_checkpoint_file_witness:
  "map fst (saved (trace (final (main demo_env demo_fw demo_loader demo_args Map.empty))))
     = [''out/pretrain_512.pth'', ''out/pretrain_512.pth'']
   \<and> ''out/pretrain_256.pth'' \<noteq> ''out/pretrain_512.pth''
   \<and> files (final (main demo_env demo_fw demo_loader demo_args Map.empty))
        ''out/pretrain_256.pth'' = None
   \<and> files (final (main demo_env demo_fw demo_loader demo_args Map.empty))
        ''out/pretrain_512.pth''
       = Some (snd (last (saved (trace (final
            (main demo_env demo_fw demo_loader demo_args Map.empty))))))"
proof -
  have p: "out_dir demo_args @ ''/pretrain_'' @ str_int (dim demo_args)
             @ (if use_moe demo_args then ''_moe'' else []) @ ''.pth'' = ''out/pretrain_512.pth''"
    by (simp add: demo_args_def str_int_def str_nat.simps)
  have ne: "saved (trace (final (main demo_env demo_fw demo_loader demo_args Map.empty))) \<noteq> []"
    using demo_checkpoint_paths by auto
  note t = single_checkpoint_file [of demo_args demo_env demo_fw demo_loader Map.empty,
      unfolded p]
  have 1: "files (final (main demo_env demo_fw demo_loader demo_args Map.empty))
             ''out/pretrain_256.pth'' = None"
    using t by simp
  have 2: "files (final (main demo_env demo_fw demo_loader demo_args Map.empty))
        ''out/pretrain_512.pth''
       = Some (snd (last (saved (trace (final
            (main demo_env demo_fw demo_loader demo_args Map.empty))))))"
    using t ne by simp
  from demo_checkpoint_paths 1 2 show ?thesis by simp
qed

end
